theory Spec2Isabelle
  imports Complex_Main "HOL-Library.Char_ord" "HOL-Library.List_Lexorder" "HOL-Library.AList"
begin

section \<open>Data model\<close>

text \<open>
  The persisted schema of \<^verbatim>\<open>database.py\<close> (\<^verbatim>\<open>_init_tables\<close>):
  \<^verbatim>\<open>raw_events(id, timestamp INTEGER, event_type CHECK IN ('keyboard','mouse'), details)\<close> and
  \<^verbatim>\<open>aggregated_stats(time_period TEXT PRIMARY KEY, keyboard_count, mouse_count, score)\<close>.
  The CHECK constraint admits exactly two event types, so the column is a two-valued
  datatype. The columns \<^verbatim>\<open>id\<close> and \<^verbatim>\<open>details\<close> are never read by the modelled
  queries and never written by the insert (\<^verbatim>\<open>INSERT INTO raw_events (event_type, timestamp)\<close>),
  and are left out. Python integers are unbounded: \<open>int\<close>. Values of \<^verbatim>\<open>time.time()\<close>
  are modelled as \<open>real\<close>.
\<close>

datatype event_type = Keyboard | Mouse

record raw_event =
  timestamp :: int
  event_type :: event_type

record agg_row =
  time_period :: string
  keyboard_count :: int
  mouse_count :: int
  score :: int

text \<open>The dictionary \<^verbatim>\<open>{'keyboard': k, 'mouse': m}\<close> returned by the count queries.\<close>

record counts =
  keyboard :: int
  mouse :: int

text \<open>An exception raised by the storage layer (\<^verbatim>\<open>sqlite3.Error\<close>), with its message.\<close>

datatype db_error = SqliteError string

section \<open>SQL building blocks\<close>

text \<open>
  \<^verbatim>\<open>SUM(...)\<close> over no rows is NULL (\<open>None\<close>); Python's \<^verbatim>\<open>row[0] or 0\<close> maps NULL and
  \<open>0\<close> to \<open>0\<close>.
\<close>

definition sql_sum :: "int list \<Rightarrow> int option" where
  "sql_sum xs = (if xs = [] then None else Some (sum_list xs))"

definition or_zero :: "int option \<Rightarrow> int" where
  "or_zero v = (case v of None \<Rightarrow> 0 | Some n \<Rightarrow> (if n = 0 then 0 else n))"

text \<open>
  SQLite's \<^verbatim>\<open>LIKE\<close>: \<^verbatim>\<open>%\<close> matches any sequence of characters, \<^verbatim>\<open>_\<close> any single
  character, and an ASCII letter matches in either case.
\<close>

definition ascii_lower :: "char \<Rightarrow> char" where
  "ascii_lower c =
     (let n = (of_char c :: nat) in if 65 \<le> n \<and> n \<le> 90 then char_of (n + 32) else c)"

fun like :: "string \<Rightarrow> string \<Rightarrow> bool" where
  "like [] [] = True"
| "like [] (c # cs) = False"
| "like (p # ps) [] = (p = CHR ''%'' \<and> like ps [])"
| "like (p # ps) (c # cs) =
     (if p = CHR ''%'' then like ps (c # cs) \<or> like (p # ps) cs
      else if p = CHR ''_'' then like ps cs
      else ascii_lower p = ascii_lower c \<and> like ps cs)"

text \<open>
  \<^verbatim>\<open>ORDER BY time_period ASC|DESC LIMIT n\<close>: text compares bytewise (the order of
  \<open>Char_ord\<close> lifted lexicographically to strings); a negative limit means no limit.
\<close>

definition sql_limit :: "int \<Rightarrow> 'a list \<Rightarrow> 'a list" where
  "sql_limit n xs = (if n < 0 then xs else take (nat n) xs)"

definition order_by_period_asc :: "agg_row list \<Rightarrow> agg_row list" where
  "order_by_period_asc rows = sort_key time_period rows"

definition order_by_period_desc :: "agg_row list \<Rightarrow> agg_row list" where
  "order_by_period_desc rows = rev (sort_key time_period rows)"

text \<open>
  \<^verbatim>\<open>INSERT OR REPLACE\<close> on the primary key \<^verbatim>\<open>time_period\<close>: a row with the same
  key is removed and the new row is inserted.
\<close>

definition insert_or_replace :: "agg_row \<Rightarrow> agg_row list \<Rightarrow> agg_row list" where
  "insert_or_replace r T = filter (\<lambda>x. time_period x \<noteq> time_period r) T @ [r]"

definition delete_where :: "(agg_row \<Rightarrow> bool) \<Rightarrow> agg_row list \<Rightarrow> agg_row list" where
  "delete_where P T = filter (\<lambda>x. \<not> P x) T"

section \<open>Local calendar time and period keys\<close>

text \<open>
  \<^verbatim>\<open>datetime(timestamp, 'unixepoch', 'localtime')\<close> and \<^verbatim>\<open>strftime\<close>. The local UTC
  offset is the environment's: \<open>tz t\<close> is the offset in seconds in force at instant \<open>t\<close>.
  The day number is turned into a proleptic Gregorian date; the fields are printed
  zero-padded as \<^verbatim>\<open>strftime\<close> does for years 0000 to 9999, the range of SQLite's
  date functions (recorded timestamps are \<^verbatim>\<open>int(time.time())\<close>).
\<close>

definition civil_from_days :: "int \<Rightarrow> int \<times> int \<times> int" where
  "civil_from_days z0 =
     (let z = z0 + 719468;
          era = z div 146097;
          doe = z - era * 146097;
          yoe = (doe - doe div 1460 + doe div 36524 - doe div 146096) div 365;
          doy = doe - (365 * yoe + yoe div 4 - yoe div 100);
          mp = (5 * doy + 2) div 153;
          d = doy - (153 * mp + 2) div 5 + 1;
          m = (if mp < 10 then mp + 3 else mp - 9);
          y = yoe + era * 400 + (if m \<le> 2 then 1 else 0)
      in (y, m, d))"

definition days_from_civil :: "int \<Rightarrow> int \<Rightarrow> int \<Rightarrow> int" where
  "days_from_civil y0 m d =
     (let y = (if m \<le> 2 then y0 - 1 else y0);
          era = y div 400;
          yoe = y - era * 400;
          doy = (153 * (if m > 2 then m - 3 else m + 9) + 2) div 5 + d - 1;
          doe = yoe * 365 + yoe div 4 - yoe div 100 + doy
      in era * 146097 + doe - 719468)"

definition local_days :: "(int \<Rightarrow> int) \<Rightarrow> int \<Rightarrow> int" where
  "local_days tz t = (t + tz t) div 86400"

definition local_hour :: "(int \<Rightarrow> int) \<Rightarrow> int \<Rightarrow> int" where
  "local_hour tz t = ((t + tz t) mod 86400) div 3600"

definition local_minute :: "(int \<Rightarrow> int) \<Rightarrow> int \<Rightarrow> int" where
  "local_minute tz t = ((t + tz t) mod 3600) div 60"

text \<open>\<^verbatim>\<open>%W\<close>: week of the year, weeks starting on Monday, days before the first Monday in week 00.\<close>

definition week_of_year :: "int \<Rightarrow> int" where
  "week_of_year days =
     (let y = fst (civil_from_days days);
          yday = days - days_from_civil y 1 1;
          wday = (days + 4) mod 7
      in (yday + 7 - (wday + 6) mod 7) div 7)"

definition digit :: "int \<Rightarrow> char" where
  "digit n = ''0123456789'' ! nat (n mod 10)"

definition pad2 :: "int \<Rightarrow> string" where
  "pad2 n = [digit (n div 10), digit n]"

definition pad4 :: "int \<Rightarrow> string" where
  "pad4 n = [digit (n div 1000), digit (n div 100), digit (n div 10), digit n]"

text \<open>\<^verbatim>\<open>strftime('%Y-%m', ...)\<close>, \<^verbatim>\<open>'%Y-%m-%d'\<close>, \<^verbatim>\<open>'%Y-W%W'\<close> and \<^verbatim>\<open>'%Y-%m-%d %H:'\<close>.\<close>

definition period_month :: "(int \<Rightarrow> int) \<Rightarrow> int \<Rightarrow> string" where
  "period_month tz t =
     (case civil_from_days (local_days tz t) of (y, m, d) \<Rightarrow> pad4 y @ ''-'' @ pad2 m)"

definition period_day :: "(int \<Rightarrow> int) \<Rightarrow> int \<Rightarrow> string" where
  "period_day tz t =
     (case civil_from_days (local_days tz t) of
        (y, m, d) \<Rightarrow> pad4 y @ ''-'' @ pad2 m @ ''-'' @ pad2 d)"

definition period_week :: "(int \<Rightarrow> int) \<Rightarrow> int \<Rightarrow> string" where
  "period_week tz t =
     pad4 (fst (civil_from_days (local_days tz t))) @ ''-W'' @ pad2 (week_of_year (local_days tz t))"

definition period_hour_prefix :: "(int \<Rightarrow> int) \<Rightarrow> int \<Rightarrow> string" where
  "period_hour_prefix tz t = period_day tz t @ '' '' @ pad2 (local_hour tz t) @ '':''"

text \<open>The two \<^verbatim>\<open>CASE\<close> expressions on the minute (services.py lines 300-306 and 319-323).\<close>

definition period_15min :: "(int \<Rightarrow> int) \<Rightarrow> int \<Rightarrow> string" where
  "period_15min tz t =
     period_hour_prefix tz t @
       (if local_minute tz t < 15 then ''00''
        else if local_minute tz t < 30 then ''15''
        else if local_minute tz t < 45 then ''30''
        else ''45'')"

definition period_30min :: "(int \<Rightarrow> int) \<Rightarrow> int \<Rightarrow> string" where
  "period_30min tz t =
     period_hour_prefix tz t @ (if local_minute tz t < 30 then ''00'' else ''30'')"

section \<open>The aggregation pass\<close>

text \<open>
  One \<^verbatim>\<open>INSERT OR REPLACE ... SELECT ... FROM raw_events WHERE timestamp >= cutoff GROUP BY period\<close>
  statement of \<^verbatim>\<open>_do_calculate_aggregates\<close>: the selected events are grouped by
  their period key and each group yields one row with the three \<^verbatim>\<open>SUM(CASE ...)\<close> columns.
  \<^verbatim>\<open>strftime('%s', datetime('now', '-N day'))\<close> is the current time in whole seconds
  minus \<open>N * 86400\<close>; compared with the INTEGER column it is compared as a number.
\<close>

definition group_row :: "string \<Rightarrow> raw_event list \<Rightarrow> agg_row" where
  "group_row k grp =
     \<lparr>time_period = k,
      keyboard_count = sum_list (map (\<lambda>e. if event_type e = Keyboard then 1 else 0) grp),
      mouse_count = sum_list (map (\<lambda>e. if event_type e = Mouse then 1 else 0) grp),
      score = sum_list (map (\<lambda>e. if event_type e = Keyboard then 1 else 5) grp)\<rparr>"

definition aggregate_select :: "(int \<Rightarrow> string) \<Rightarrow> int \<Rightarrow> raw_event list \<Rightarrow> agg_row list" where
  "aggregate_select period cutoff raw =
     (let sel = filter (\<lambda>e. cutoff \<le> timestamp e) raw
      in map (\<lambda>k. group_row k (filter (\<lambda>e. period (timestamp e) = k) sel))
             (remdups (map (\<lambda>e. period (timestamp e)) sel)))"

definition insert_or_replace_all :: "agg_row list \<Rightarrow> agg_row list \<Rightarrow> agg_row list" where
  "insert_or_replace_all rows T = fold insert_or_replace rows T"

text \<open>
  The six statements of \<^verbatim>\<open>_do_calculate_aggregates\<close> (services.py lines 294-369), in
  order: the \<^verbatim>\<open>DELETE ... WHERE time_period LIKE '%-%-% %:%'\<close>, then the 15-minute,
  30-minute, daily, weekly and monthly upserts.
\<close>

definition aggregate_pass ::
  "(int \<Rightarrow> int) \<Rightarrow> int \<Rightarrow> raw_event list \<Rightarrow> agg_row list \<Rightarrow> agg_row list" where
  "aggregate_pass tz now raw T0 =
     (let T1 = delete_where (\<lambda>r. like ''%-%-% %:%'' (time_period r)) T0;
          T2 = insert_or_replace_all (aggregate_select (period_15min tz) (now - 2 * 86400) raw) T1;
          T3 = insert_or_replace_all (aggregate_select (period_30min tz) (now - 7 * 86400) raw) T2;
          T4 = insert_or_replace_all (aggregate_select (period_day tz) (now - 30 * 86400) raw) T3;
          T5 = insert_or_replace_all (aggregate_select (period_week tz) (now - 365 * 86400) raw) T4;
          T6 = insert_or_replace_all (aggregate_select (period_month tz) (now - 365 * 86400) raw) T5
      in T6)"

section \<open>The database manager and its write buffer\<close>

text \<open>
  \<^verbatim>\<open>DatabaseManager\<close> of \<^verbatim>\<open>database.py\<close>: the two tables, the pending list
  \<^verbatim>\<open>batch_events\<close>, and the FIFO queue of the background worker. \<open>conn_error\<close> stands for
  a storage layer that currently raises on access (\<open>Some e\<close>) or answers (\<open>None\<close>).
  \<open>has_worker\<close> is the test \<^verbatim>\<open>hasattr(self.db, 'worker') and self.db.worker\<close> of
  \<^verbatim>\<open>EventService\<close>; it is true for this manager and false for the manager of
  \<^verbatim>\<open>core/models.py\<close>. Callbacks run one at a time on the UI thread and the worker
  takes one task at a time, so every operation is a state transformer.
\<close>

datatype task = BatchInsert "(event_type \<times> int) list" | CalculateAggregates

record database_manager =
  raw_events :: "raw_event list"
  aggregated_stats :: "agg_row list"
  conn_error :: "db_error option"
  batch_events :: "(event_type \<times> int) list"
  queue :: "task list"
  has_worker :: bool

definition flush_batch_events :: "database_manager \<Rightarrow> database_manager" where
  "flush_batch_events d =
     (if batch_events d = [] then d
      else d\<lparr>batch_events := [], queue := queue d @ [BatchInsert (batch_events d)]\<rparr>)"

definition record_event :: "event_type \<Rightarrow> int \<Rightarrow> database_manager \<Rightarrow> database_manager" where
  "record_event ty ts d =
     (let d1 = d\<lparr>batch_events := batch_events d @ [(ty, ts)]\<rparr>
      in if length (batch_events d1) > 10 then flush_batch_events d1 else d1)"

definition do_batch_insert ::
  "(event_type \<times> int) list \<Rightarrow> database_manager \<Rightarrow> db_error + database_manager" where
  "do_batch_insert events d =
     (case conn_error d of
        Some e \<Rightarrow> Inl e
      | None \<Rightarrow>
          Inr (d\<lparr>raw_events := raw_events d @
                  map (\<lambda>(ty, ts). \<lparr>timestamp = ts, event_type = ty\<rparr>) events\<rparr>))"

text \<open>
  \<^verbatim>\<open>_do_calculate_aggregates\<close>: the whole body is inside \<^verbatim>\<open>try ... except Exception\<close>,
  which prints the error; a failing storage layer raises at the first statement, so
  nothing is written. \<open>now\<close> is SQLite's \<^verbatim>\<open>'now'\<close> in whole seconds, the same for
  the six statements of one run.
\<close>

definition do_calculate_aggregates ::
  "(int \<Rightarrow> int) \<Rightarrow> int \<Rightarrow> database_manager \<Rightarrow> database_manager" where
  "do_calculate_aggregates tz now d =
     (case conn_error d of
        Some e \<Rightarrow> d
      | None \<Rightarrow> d\<lparr>aggregated_stats := aggregate_pass tz now (raw_events d) (aggregated_stats d)\<rparr>)"

text \<open>
  One iteration of \<^verbatim>\<open>DatabaseWorker.run\<close> with a task available: the task is taken
  from the head of the queue and run; an exception of the task is printed and dropped.
\<close>

definition worker_step :: "(int \<Rightarrow> int) \<Rightarrow> int \<Rightarrow> database_manager \<Rightarrow> database_manager" where
  "worker_step tz now d =
     (case queue d of
        [] \<Rightarrow> d
      | t # rest \<Rightarrow>
          (let d1 = d\<lparr>queue := rest\<rparr>
           in case t of
                BatchInsert events \<Rightarrow>
                  (case do_batch_insert events d1 of Inl e \<Rightarrow> d1 | Inr d2 \<Rightarrow> d2)
              | CalculateAggregates \<Rightarrow> do_calculate_aggregates tz now d1))"

section \<open>The event listener\<close>

text \<open>
  \<^verbatim>\<open>EventListener\<close> of \<^verbatim>\<open>event_listener.py\<close>. Each handler runs under its own lock
  and touches only its own \<open>last_..._time\<close>; a handler returns the event it emits through
  \<^verbatim>\<open>event_recorded\<close> (connected to \<^verbatim>\<open>DatabaseManager.record_event\<close>), if any.
  \<^verbatim>\<open>int(x)\<close> truncates toward zero.
\<close>

record event_listener =
  last_key_time :: real
  last_click_time :: real
  keyboard_throttle :: real
  mouse_throttle :: real

definition new_event_listener :: event_listener where
  "new_event_listener =
     \<lparr>last_key_time = 0, last_click_time = 0, keyboard_throttle = 5 / 100, mouse_throttle = 5 / 100\<rparr>"

definition py_int :: "real \<Rightarrow> int" where
  "py_int x = (if 0 \<le> x then \<lfloor>x\<rfloor> else \<lceil>x\<rceil>)"

definition on_press :: "real \<Rightarrow> event_listener \<Rightarrow> (event_type \<times> int) option \<times> event_listener" where
  "on_press current_time l =
     (if current_time - last_key_time l > keyboard_throttle l
      then (Some (Keyboard, py_int current_time), l\<lparr>last_key_time := current_time\<rparr>)
      else (None, l))"

definition on_click ::
  "bool \<Rightarrow> real \<Rightarrow> event_listener \<Rightarrow> (event_type \<times> int) option \<times> event_listener" where
  "on_click pressed current_time l =
     (if pressed then
        (if current_time - last_click_time l > mouse_throttle l
         then (Some (Mouse, py_int current_time), l\<lparr>last_click_time := current_time\<rparr>)
         else (None, l))
      else (None, l))"

text \<open>
  A stream of notifications from the input layer, each with the value \<^verbatim>\<open>time.time()\<close>
  returns inside the handler; \<open>listen\<close> returns, per notification, what was emitted.
\<close>

datatype input = Press real | Click bool real

fun input_time :: "input \<Rightarrow> real" where
  "input_time (Press t) = t"
| "input_time (Click pressed t) = t"

fun input_type :: "input \<Rightarrow> event_type" where
  "input_type (Press t) = Keyboard"
| "input_type (Click pressed t) = Mouse"

fun handle_input :: "input \<Rightarrow> event_listener \<Rightarrow> (event_type \<times> int) option \<times> event_listener" where
  "handle_input (Press t) l = on_press t l"
| "handle_input (Click pressed t) l = on_click pressed t l"

fun listen :: "event_listener \<Rightarrow> input list \<Rightarrow> (event_type \<times> int) option list" where
  "listen l [] = []"
| "listen l (i # is) = (case handle_input i l of (out, l') \<Rightarrow> out # listen l' is)"

section \<open>The score calculator\<close>

text \<open>
  \<^verbatim>\<open>ScoreCalculator\<close> of \<^verbatim>\<open>core/utils.py\<close>; \<^verbatim>\<open>counts.get(key, 0)\<close> reads a dictionary
  with default \<open>0\<close>.
\<close>

record score_calculator =
  keyboard_weight :: int
  mouse_weight :: int
  last_calculation :: "int \<times> int \<times> int"

definition new_score_calculator :: score_calculator where
  "new_score_calculator = \<lparr>keyboard_weight = 1, mouse_weight = 5, last_calculation = (0, 0, 0)\<rparr>"

definition dict_get :: "(string \<rightharpoonup> int) \<Rightarrow> string \<Rightarrow> int \<Rightarrow> int" where
  "dict_get m k dflt = (case m k of None \<Rightarrow> dflt | Some v \<Rightarrow> v)"

definition calculate_score :: "(string \<rightharpoonup> int) \<Rightarrow> score_calculator \<Rightarrow> int \<times> score_calculator" where
  "calculate_score cnts c =
     (let k = dict_get cnts ''keyboard'' 0;
          m = dict_get cnts ''mouse'' 0
      in if k = fst (last_calculation c) \<and> m = fst (snd (last_calculation c))
         then (snd (snd (last_calculation c)), c)
         else (let sc = k * keyboard_weight c + m * mouse_weight c
               in (sc, c\<lparr>last_calculation := (k, m, sc)\<rparr>)))"

definition update_weights :: "int \<Rightarrow> int \<Rightarrow> score_calculator \<Rightarrow> score_calculator" where
  "update_weights k m c =
     (if keyboard_weight c \<noteq> k \<or> mouse_weight c \<noteq> m
      then c\<lparr>keyboard_weight := k, mouse_weight := m, last_calculation := (0, 0, 0)\<rparr>
      else c)"

section \<open>The event service\<close>

text \<open>
  \<^verbatim>\<open>EventService\<close> of \<^verbatim>\<open>core/services.py\<close>. The two cache dictionaries are
  association lists in insertion order, as Python dictionaries are; the key is the
  requested timestamp (an \<^verbatim>\<open>int\<close> or a \<^verbatim>\<open>float\<close>: callers pass both).
\<close>

record event_service =
  db :: database_manager
  counts_cache :: "(real \<times> counts) list"
  cache_timestamps :: "(real \<times> real) list"
  cache_lifetime :: real
  last_aggregate_time :: real

definition new_event_service :: "database_manager \<Rightarrow> event_service" where
  "new_event_service d =
     \<lparr>db = d, counts_cache = [], cache_timestamps = [], cache_lifetime = 1, last_aggregate_time = 0\<rparr>"

definition clear_outdated_cache :: "real \<Rightarrow> bool \<Rightarrow> event_service \<Rightarrow> event_service" where
  "clear_outdated_cache current_time force s =
     (let outdated_keys =
            map fst (filter (\<lambda>(k, cache_time). force \<or> current_time - cache_time \<ge> cache_lifetime s)
                       (cache_timestamps s))
      in s\<lparr>counts_cache := fold AList.delete outdated_keys (counts_cache s),
            cache_timestamps := fold AList.delete outdated_keys (cache_timestamps s)\<rparr>)"

text \<open>
  The grouped-count query (lines 40-45) with the loop that fills the result (lines 47-52),
  and the conditional-sum query (lines 56-62).
\<close>

definition grouped_count_query :: "real \<Rightarrow> raw_event list \<Rightarrow> (event_type \<times> int) list" where
  "grouped_count_query t raw =
     (let sel = filter (\<lambda>e. t \<le> real_of_int (timestamp e)) raw
      in map (\<lambda>ty. (ty, int (length (filter (\<lambda>e. event_type e = ty) sel))))
             (remdups (map event_type sel)))"

fun fill_counts :: "(event_type \<times> int) list \<Rightarrow> counts \<Rightarrow> counts" where
  "fill_counts [] result = result"
| "fill_counts ((ty, n) # rows) result =
     fill_counts rows
       (if ty = Keyboard then result\<lparr>keyboard := n\<rparr>
        else if ty = Mouse then result\<lparr>mouse := n\<rparr>
        else result)"

definition conditional_sum_query :: "real \<Rightarrow> raw_event list \<Rightarrow> int option \<times> int option" where
  "conditional_sum_query t raw =
     (let sel = filter (\<lambda>e. t \<le> real_of_int (timestamp e)) raw
      in (sql_sum (map (\<lambda>e. if event_type e = Keyboard then 1 else 0) sel),
          sql_sum (map (\<lambda>e. if event_type e = Mouse then 1 else 0) sel)))"

definition recent_counts :: "real \<Rightarrow> raw_event list \<Rightarrow> counts" where
  "recent_counts t raw = fill_counts (grouped_count_query t raw) \<lparr>keyboard = 0, mouse = 0\<rparr>"

definition historical_counts :: "real \<Rightarrow> raw_event list \<Rightarrow> counts" where
  "historical_counts t raw =
     (case conditional_sum_query t raw of (k, m) \<Rightarrow> \<lparr>keyboard = or_zero k, mouse = or_zero m\<rparr>)"

text \<open>The cache test of lines 32-35: the entry that is answered from, if any.\<close>

definition cached_counts :: "real \<Rightarrow> real \<Rightarrow> event_service \<Rightarrow> counts option" where
  "cached_counts current_time t s =
     (let very_recent = current_time - t < 2
      in case map_of (counts_cache s) t of
           None \<Rightarrow> None
         | Some c \<Rightarrow>
             (let cache_time = (case map_of (cache_timestamps s) t of None \<Rightarrow> 0 | Some ct \<Rightarrow> ct)
              in if current_time - cache_time < (if very_recent then 2 / 10 else cache_lifetime s)
                 then Some c else None))"

text \<open>
  \<^verbatim>\<open>get_counts_since\<close> has no exception handler: an error of the storage layer
  leaves the function as an exception (\<open>Inl\<close>), before any cache update.
\<close>

definition get_counts_since ::
  "real \<Rightarrow> real \<Rightarrow> event_service \<Rightarrow> (db_error + counts) \<times> event_service" where
  "get_counts_since current_time t s =
     (case cached_counts current_time t s of
        Some c \<Rightarrow> (Inr c, s)
      | None \<Rightarrow>
          (case conn_error (db s) of
             Some e \<Rightarrow> (Inl e, s)
           | None \<Rightarrow>
               (let very_recent = current_time - t < 2;
                    result = (if very_recent then recent_counts t (raw_events (db s))
                              else historical_counts t (raw_events (db s)));
                    s1 = s\<lparr>counts_cache := AList.update t result (counts_cache s),
                           cache_timestamps := AList.update t current_time (cache_timestamps s)\<rparr>;
                    s2 = (if length (counts_cache s1) > 20
                          then clear_outdated_cache current_time True s1 else s1)
                in (Inr result, s2))))"

text \<open>
  The five \<^verbatim>\<open>SELECT\<close> statements of \<^verbatim>\<open>get_aggregated_data\<close>; for any other
  \<^verbatim>\<open>time_range\<close> no statement is executed and \<^verbatim>\<open>fetchall\<close> yields no row. The
  returned dictionaries carry the four columns of a row.
\<close>

definition select_aggregated :: "string \<Rightarrow> int \<Rightarrow> agg_row list \<Rightarrow> agg_row list" where
  "select_aggregated time_range limit T =
     (if time_range = ''15min'' then
        sql_limit limit (order_by_period_desc
          (filter (\<lambda>r. like ''%-%-% %:%'' (time_period r) \<and>
                       (like ''%:00'' (time_period r) \<or> like ''%:15'' (time_period r) \<or>
                        like ''%:30'' (time_period r) \<or> like ''%:45'' (time_period r))) T))
      else if time_range = ''30min'' then
        sql_limit limit (order_by_period_desc
          (filter (\<lambda>r. like ''%-%-% %:%'' (time_period r) \<and>
                       (like ''%:00'' (time_period r) \<or> like ''%:30'' (time_period r))) T))
      else if time_range = ''day'' then
        sql_limit limit (order_by_period_desc
          (filter (\<lambda>r. like ''%-%-%'' (time_period r) \<and> length (time_period r) = 10) T))
      else if time_range = ''week'' then
        sql_limit limit (order_by_period_desc
          (filter (\<lambda>r. like ''%-W%'' (time_period r)) T))
      else if time_range = ''month'' then
        sql_limit limit (order_by_period_desc
          (filter (\<lambda>r. like ''%-%'' (time_period r) \<and> length (time_period r) = 7) T))
      else [])"

text \<open>A \<^verbatim>\<open>try\<close> body that reads the aggregate table: the storage layer raises or answers.\<close>

definition read_aggregated ::
  "(agg_row list \<Rightarrow> agg_row list) \<Rightarrow> database_manager \<Rightarrow> db_error + agg_row list" where
  "read_aggregated q d =
     (case conn_error d of Some e \<Rightarrow> Inl e | None \<Rightarrow> Inr (q (aggregated_stats d)))"

text \<open>\<^verbatim>\<open>except Exception as e: ... return []\<close>.\<close>

definition except_return_empty :: "db_error + agg_row list \<Rightarrow> db_error + agg_row list" where
  "except_return_empty r = (case r of Inl e \<Rightarrow> Inr [] | Inr rows \<Rightarrow> Inr rows)"

definition get_aggregated_data :: "string \<Rightarrow> int \<Rightarrow> event_service \<Rightarrow> db_error + agg_row list" where
  "get_aggregated_data time_range limit s =
     except_return_empty (read_aggregated (select_aggregated time_range limit) (db s))"

text \<open>
  \<^verbatim>\<open>get_today_aggregated_data\<close>: the statement chosen by \<^verbatim>\<open>time_range\<close>, none for a
  range other than \<^verbatim>\<open>'15min'\<close> and \<^verbatim>\<open>'30min'\<close> (the \<^verbatim>\<open>else\<close> branch returns at once).
  \<open>today\<close> is \<^verbatim>\<open>datetime.now().strftime("%Y-%m-%d")\<close>.
\<close>

definition today_statement ::
  "string \<Rightarrow> string \<Rightarrow> int \<Rightarrow> (agg_row list \<Rightarrow> agg_row list) option" where
  "today_statement time_range today limit =
     (if time_range = ''15min'' then
        Some (\<lambda>T. sql_limit limit (order_by_period_asc
          (filter (\<lambda>r. like (today @ '' %:%'') (time_period r) \<and>
                       (like ''%:00'' (time_period r) \<or> like ''%:15'' (time_period r) \<or>
                        like ''%:30'' (time_period r) \<or> like ''%:45'' (time_period r))) T)))
      else if time_range = ''30min'' then
        Some (\<lambda>T. sql_limit limit (order_by_period_asc
          (filter (\<lambda>r. like (today @ '' %:%'') (time_period r) \<and>
                       (like ''%:00'' (time_period r) \<or> like ''%:30'' (time_period r))) T)))
      else None)"

definition get_today_aggregated_data ::
  "(int \<Rightarrow> int) \<Rightarrow> real \<Rightarrow> string \<Rightarrow> int \<Rightarrow> event_service \<Rightarrow> db_error + agg_row list" where
  "get_today_aggregated_data tz current_time time_range limit s =
     except_return_empty
       (case today_statement time_range (period_day tz \<lfloor>current_time\<rfloor>) limit of
          None \<Rightarrow> Inr []
        | Some q \<Rightarrow> read_aggregated q (db s))"

text \<open>
  \<^verbatim>\<open>calculate_aggregates\<close>: the 60-second gate, then the work is queued for the worker,
  or run at once when there is no worker (its exception printed).
\<close>

definition calculate_aggregates :: "(int \<Rightarrow> int) \<Rightarrow> real \<Rightarrow> event_service \<Rightarrow> event_service" where
  "calculate_aggregates tz current_time s =
     (if current_time - last_aggregate_time s < 60 then s
      else (let s1 = s\<lparr>last_aggregate_time := current_time\<rparr>
            in if has_worker (db s1)
               then s1\<lparr>db := (db s1)\<lparr>queue := queue (db s1) @ [CalculateAggregates]\<rparr>\<rparr>
               else s1\<lparr>db := do_calculate_aggregates tz \<lfloor>current_time\<rfloor> (db s1)\<rparr>))"

text \<open>
  A manager right after \<^verbatim>\<open>__init__\<close> on a new database file: empty tables, nothing
  pending, the worker started.
\<close>

definition fresh_database_manager :: database_manager where
  "fresh_database_manager =
     \<lparr>raw_events = [], aggregated_stats = [], conn_error = None,
      batch_events = [], queue = [], has_worker = True\<rparr>"

text \<open>
  Views used to state the throttle property: the interval and the last accepted time a
  handler consults for an event type, and the emissions of a stream restricted to the
  notifications of one type.
\<close>

definition throttle_of :: "event_listener \<Rightarrow> event_type \<Rightarrow> real" where
  "throttle_of l ty = (case ty of Keyboard \<Rightarrow> keyboard_throttle l | Mouse \<Rightarrow> mouse_throttle l)"

definition last_time_of :: "event_listener \<Rightarrow> event_type \<Rightarrow> real" where
  "last_time_of l ty = (case ty of Keyboard \<Rightarrow> last_key_time l | Mouse \<Rightarrow> last_click_time l)"

definition outputs_of_type ::
  "event_type \<Rightarrow> input list \<Rightarrow> (event_type \<times> int) option list \<Rightarrow> (event_type \<times> int) option list" where
  "outputs_of_type ty is outs = map snd (filter (\<lambda>(i, out). input_type i = ty) (zip is outs))"

text \<open>
  The memo \<^verbatim>\<open>_last_calculation = (keyboard, mouse, score)\<close> agrees with the current
  weights.
\<close>

definition memo_consistent :: "score_calculator \<Rightarrow> bool" where
  "memo_consistent c =
     (case last_calculation c of
        (k, m, sc) \<Rightarrow> sc = k * keyboard_weight c + m * mouse_weight c)"

text \<open>The scenario of the specification: keyboard events at 100, 101, 102 and a mouse event at 101.\<close>

definition scenario_events :: "raw_event list" where
  "scenario_events =
     [\<lparr>timestamp = 100, event_type = Keyboard\<rparr>, \<lparr>timestamp = 101, event_type = Keyboard\<rparr>,
      \<lparr>timestamp = 102, event_type = Keyboard\<rparr>, \<lparr>timestamp = 101, event_type = Mouse\<rparr>]"

text \<open>
  The rows the five upserts of one pass write, in statement order, and the predicate of
  the \<^verbatim>\<open>DELETE\<close> statement.
\<close>

definition pass_rows :: "(int \<Rightarrow> int) \<Rightarrow> int \<Rightarrow> raw_event list \<Rightarrow> agg_row list" where
  "pass_rows tz now raw =
     aggregate_select (period_15min tz) (now - 2 * 86400) raw @
     aggregate_select (period_30min tz) (now - 7 * 86400) raw @
     aggregate_select (period_day tz) (now - 30 * 86400) raw @
     aggregate_select (period_week tz) (now - 365 * 86400) raw @
     aggregate_select (period_month tz) (now - 365 * 86400) raw"

definition minute_level :: "agg_row \<Rightarrow> bool" where
  "minute_level r = like ''%-%-% %:%'' (time_period r)"

text \<open>A string none of whose characters matches a space under \<^verbatim>\<open>LIKE\<close>.\<close>

definition spaceless :: "string \<Rightarrow> bool" where
  "spaceless s = (\<forall>c \<in> set s. ascii_lower c \<noteq> ascii_lower CHR '' '')"

text \<open>
  A concrete history used to exercise the pass: one keyboard event on 2024-01-01 at
  10:20:00 UTC, a first run five minutes later, a second run three days after the first.
\<close>

definition history_events :: "raw_event list" where
  "history_events = [\<lparr>timestamp = 1704104400, event_type = Keyboard\<rparr>]"

definition first_run_table :: "agg_row list" where
  "first_run_table =
     [\<lparr>time_period = ''2024-01-01 10:15'', keyboard_count = 1, mouse_count = 0, score = 1\<rparr>,
      \<lparr>time_period = ''2024-01-01 10:00'', keyboard_count = 1, mouse_count = 0, score = 1\<rparr>,
      \<lparr>time_period = ''2024-01-01'', keyboard_count = 1, mouse_count = 0, score = 1\<rparr>,
      \<lparr>time_period = ''2024-W01'', keyboard_count = 1, mouse_count = 0, score = 1\<rparr>,
      \<lparr>time_period = ''2024-01'', keyboard_count = 1, mouse_count = 0, score = 1\<rparr>]"

definition second_run_table :: "agg_row list" where
  "second_run_table =
     [\<lparr>time_period = ''2024-01-01 10:00'', keyboard_count = 1, mouse_count = 0, score = 1\<rparr>,
      \<lparr>time_period = ''2024-01-01'', keyboard_count = 1, mouse_count = 0, score = 1\<rparr>,
      \<lparr>time_period = ''2024-W01'', keyboard_count = 1, mouse_count = 0, score = 1\<rparr>,
      \<lparr>time_period = ''2024-01'', keyboard_count = 1, mouse_count = 0, score = 1\<rparr>]"

text \<open>
  The count the specification asks of \<^verbatim>\<open>countsSince\<close>, in its words: the number of
  raw events of a type with \<open>timestamp \<ge> t\<close>.
\<close>

definition count_since :: "event_type \<Rightarrow> real \<Rightarrow> raw_event list \<Rightarrow> int" where
  "count_since ty t raw =
     int (length (filter (\<lambda>e. event_type e = ty \<and> t \<le> real_of_int (timestamp e)) raw))"

text \<open>
  A service whose cache is out of date: a first query for \<open>t = 999\<close> at time 1000 on an
  empty table, then a keyboard event with timestamp 999 is recorded, flushed and inserted
  by the worker.
\<close>

definition stale_cache_service :: event_service where
  "stale_cache_service =
     (let s1 = snd (get_counts_since 1000 999 (new_event_service fresh_database_manager))
      in s1\<lparr>db := worker_step (\<lambda>t. 0) 1000 (flush_batch_events (record_event Keyboard 999 (db s1)))\<rparr>)"

text \<open>A service whose storage raises on access, with two rows in the aggregate table.\<close>

definition locked_service :: event_service where
  "locked_service =
     new_event_service
       (fresh_database_manager
          \<lparr>aggregated_stats :=
             [\<lparr>time_period = ''2024-01-01'', keyboard_count = 3, mouse_count = 1, score = 8\<rparr>,
              \<lparr>time_period = ''2024-01-01 10:15'', keyboard_count = 3, mouse_count = 1, score = 8\<rparr>],
           conn_error := Some (SqliteError ''database is locked'')\<rparr>)"

text \<open>
  The five granularities of \<^verbatim>\<open>_do_calculate_aggregates\<close>, each with the period key
  and the lookback (in days) of its statement, and the events a statement puts into the
  bucket of key \<open>k\<close>: those inside the lookback horizon whose period key is \<open>k\<close>.
\<close>

datatype granularity = Min15 | Min30 | Daily | Weekly | Monthly

fun period_of :: "granularity \<Rightarrow> (int \<Rightarrow> int) \<Rightarrow> int \<Rightarrow> string" where
  "period_of Min15 = period_15min"
| "period_of Min30 = period_30min"
| "period_of Daily = period_day"
| "period_of Weekly = period_week"
| "period_of Monthly = period_month"

fun horizon_days :: "granularity \<Rightarrow> int" where
  "horizon_days Min15 = 2"
| "horizon_days Min30 = 7"
| "horizon_days Daily = 30"
| "horizon_days Weekly = 365"
| "horizon_days Monthly = 365"

definition bucket_events ::
  "granularity \<Rightarrow> (int \<Rightarrow> int) \<Rightarrow> int \<Rightarrow> raw_event list \<Rightarrow> string \<Rightarrow> raw_event list" where
  "bucket_events g tz now raw k =
     filter (\<lambda>e. now - horizon_days g * 86400 \<le> timestamp e \<and> period_of g tz (timestamp e) = k) raw"

definition granularity_rows ::
  "granularity \<Rightarrow> (int \<Rightarrow> int) \<Rightarrow> int \<Rightarrow> raw_event list \<Rightarrow> agg_row list" where
  "granularity_rows g tz now raw =
     aggregate_select (period_of g tz) (now - horizon_days g * 86400) raw"

text \<open>Two keyboard events of 2024-01-01, at 10:05:00 and 10:20:00 UTC.\<close>

definition collision_events :: "raw_event list" where
  "collision_events =
     [\<lparr>timestamp = 1704103500, event_type = Keyboard\<rparr>,
      \<lparr>timestamp = 1704104400, event_type = Keyboard\<rparr>]"

text \<open>
  Two keyboard events of 2023-12-02, at 00:10:00 and 20:00:00 UTC: thirty days before
  2024-01-01 10:25:00 lies between them.
\<close>

definition straddling_events :: "raw_event list" where
  "straddling_events =
     [\<lparr>timestamp = 1701475800, event_type = Keyboard\<rparr>,
      \<lparr>timestamp = 1701547200, event_type = Keyboard\<rparr>]"

section \<open>Properties of the write buffer\<close>

text \<open>
  C7. When \<^verbatim>\<open>record_event\<close> makes the pending list longer than 10, the same call
  flushes: the pending list is left empty and the whole batch, the new event included, is
  put at the end of the worker's queue as one batch-insert task; nothing else changes.
  When the worker reaches that task with storage answering, all rows of the batch are
  appended to \<^verbatim>\<open>raw_events\<close>.
\<close>

theorem record_event_flushes_over_threshold:
  assumes "10 < length (batch_events d @ [(ty, ts)])"
  shows "record_event ty ts d =
           d\<lparr>batch_events := [], queue := queue d @ [BatchInsert (batch_events d @ [(ty, ts)])]\<rparr> \<and>
         (queue d = [] \<and> conn_error d = None \<longrightarrow>
            raw_events (worker_step tz now (record_event ty ts d)) =
              raw_events d @ map (\<lambda>(ty, ts). \<lparr>timestamp = ts, event_type = ty\<rparr>)
                                 (batch_events d @ [(ty, ts)]))"
  using assms
  by (simp add: record_event_def flush_batch_events_def worker_step_def do_batch_insert_def)

theorem record_event_flushes_over_threshold_witness:
  "10 < length (batch_events (fresh_database_manager\<lparr>batch_events := replicate 10 (Keyboard, 100)\<rparr>)
                  @ [(Keyboard, 101)]) \<and>
   record_event Keyboard 101 (fresh_database_manager\<lparr>batch_events := replicate 10 (Keyboard, 100)\<rparr>) =
     fresh_database_manager
       \<lparr>queue := [BatchInsert (replicate 10 (Keyboard, 100) @ [(Keyboard, 101)])]\<rparr> \<and>
   length (raw_events (worker_step (\<lambda>t. 0) 200
      (record_event Keyboard 101
         (fresh_database_manager\<lparr>batch_events := replicate 10 (Keyboard, 100)\<rparr>)))) = 11"
proof -
  let ?d = "fresh_database_manager\<lparr>batch_events := replicate 10 (Keyboard, 100)\<rparr>"
  have h: "10 < length (batch_events ?d @ [(Keyboard, 101)])"
    by simp
  note t = record_event_flushes_over_threshold [OF h, of "\<lambda>t. 0" 200]
  have e1: "record_event Keyboard 101 ?d =
     fresh_database_manager
       \<lparr>queue := [BatchInsert (replicate 10 (Keyboard, 100) @ [(Keyboard, 101)])]\<rparr>"
    using t by (simp add: fresh_database_manager_def)
  have "queue ?d = [] \<and> conn_error ?d = None"
    by (simp add: fresh_database_manager_def)
  with t have "raw_events (worker_step (\<lambda>t. 0) 200 (record_event Keyboard 101 ?d)) =
      raw_events ?d @ map (\<lambda>(ty, ts). \<lparr>timestamp = ts, event_type = ty\<rparr>)
                          (batch_events ?d @ [(Keyboard, 101)])"
    by blast
  then have e2: "length (raw_events (worker_step (\<lambda>t. 0) 200 (record_event Keyboard 101 ?d))) = 11"
    by (simp add: fresh_database_manager_def)
  show ?thesis using h e1 e2 by blast
qed

section \<open>Properties of the rate limit\<close>

text \<open>
  C8. Let a call of \<^verbatim>\<open>calculate_aggregates\<close> at time \<open>t1\<close> pass the gate (it is not
  skipped), and let \<open>s'\<close> be any later state of the service in which the recorded
  last-aggregation time is still the one that call set. A call at a time \<open>t2\<close> less than
  60 seconds after \<open>t1\<close> returns \<open>s'\<close> unchanged: nothing is run or queued, and the
  aggregate table and the recorded time stay as they are.
\<close>

theorem calculate_aggregates_rate_limited:
  assumes "\<not> t1 - last_aggregate_time s < 60"
    and "last_aggregate_time s' = last_aggregate_time (calculate_aggregates tz t1 s)"
    and "t2 - t1 < 60"
  shows "calculate_aggregates tz t2 s' = s'"
proof -
  have "last_aggregate_time (calculate_aggregates tz t1 s) = t1"
    using assms(1) by (simp add: calculate_aggregates_def Let_def)
  with assms(2,3) have "t2 - last_aggregate_time s' < 60" by simp
  then show ?thesis by (simp add: calculate_aggregates_def)
qed

theorem calculate_aggregates_rate_limited_witness:
  "\<not> 1000 - last_aggregate_time (new_event_service fresh_database_manager) < 60 \<and>
   (1030::real) - 1000 < 60 \<and>
   calculate_aggregates (\<lambda>t. 0) 1030
       (calculate_aggregates (\<lambda>t. 0) 1000 (new_event_service fresh_database_manager)) =
     calculate_aggregates (\<lambda>t. 0) 1000 (new_event_service fresh_database_manager) \<and>
   queue (db (calculate_aggregates (\<lambda>t. 0) 1030
       (calculate_aggregates (\<lambda>t. 0) 1000 (new_event_service fresh_database_manager)))) =
     [CalculateAggregates]"
proof -
  have a: "\<not> 1000 - last_aggregate_time (new_event_service fresh_database_manager) < 60"
    by (simp add: new_event_service_def)
  have b: "(1030::real) - 1000 < 60" by simp
  have c: "calculate_aggregates (\<lambda>t. 0) 1030
       (calculate_aggregates (\<lambda>t. 0) 1000 (new_event_service fresh_database_manager)) =
     calculate_aggregates (\<lambda>t. 0) 1000 (new_event_service fresh_database_manager)"
    by (rule calculate_aggregates_rate_limited [OF a refl b])
  have d: "queue (db (calculate_aggregates (\<lambda>t. 0) 1000 (new_event_service fresh_database_manager))) =
     [CalculateAggregates]"
    by (simp add: calculate_aggregates_def new_event_service_def fresh_database_manager_def)
  show ?thesis using a b c d by simp
qed

section \<open>Properties of the today query\<close>

text \<open>
  C10. For every \<^verbatim>\<open>time_range\<close> other than \<^verbatim>\<open>'15min'\<close> and \<^verbatim>\<open>'30min'\<close>,
  \<^verbatim>\<open>get_today_aggregated_data\<close> selects no statement to execute and returns the empty
  list, whatever the service state (table contents, storage failing or not), the limit
  and the current time.
\<close>

theorem today_unsupported_range_empty:
  assumes "time_range \<noteq> ''15min''" and "time_range \<noteq> ''30min''"
  shows "today_statement time_range today limit = None \<and>
         get_today_aggregated_data tz current_time time_range limit s = Inr []"
  using assms
  by (simp add: today_statement_def get_today_aggregated_data_def except_return_empty_def)

theorem today_unsupported_range_empty_witness:
  "''day'' \<noteq> ''15min'' \<and> ''day'' \<noteq> ''30min'' \<and>
   today_statement ''day'' ''2024-01-01'' 96 = None \<and>
   get_today_aggregated_data (\<lambda>t. 0) 1704103500 ''day'' 96
     (new_event_service (fresh_database_manager
        \<lparr>aggregated_stats := [\<lparr>time_period = ''2024-01-01'', keyboard_count = 3,
                                mouse_count = 1, score = 8\<rparr>]\<rparr>)) = Inr []"
  using today_unsupported_range_empty
    [of "''day''" "''2024-01-01''" 96 "\<lambda>t. 0" 1704103500
        "new_event_service (fresh_database_manager
           \<lparr>aggregated_stats := [\<lparr>time_period = ''2024-01-01'', keyboard_count = 3,
                                   mouse_count = 1, score = 8\<rparr>]\<rparr>)"]
  by simp

section \<open>Properties of the throttle\<close>

lemma handle_input_throttle:
  "throttle_of (snd (handle_input i l)) ty = throttle_of l ty"
  by (cases i; cases ty) (simp_all add: throttle_of_def on_press_def on_click_def)

lemma handle_input_emits:
  assumes "fst (handle_input i l) \<noteq> None"
  shows "input_time i - last_time_of l (input_type i) > throttle_of l (input_type i) \<and>
         last_time_of (snd (handle_input i l)) (input_type i) = input_time i"
  using assms
  by (cases i) (simp_all add: throttle_of_def last_time_of_def on_press_def on_click_def split: if_splits)

lemma handle_input_last_mono:
  assumes "0 \<le> throttle_of l ty"
  shows "last_time_of l ty \<le> last_time_of (snd (handle_input i l)) ty"
  using assms
  by (cases i; cases ty) (simp_all add: throttle_of_def last_time_of_def on_press_def on_click_def)

lemma handle_input_other_type:
  assumes "input_type i \<noteq> ty"
  shows "last_time_of (snd (handle_input i l)) ty = last_time_of l ty"
  using assms
  by (cases i; cases ty) (simp_all add: last_time_of_def on_press_def on_click_def)

lemma listen_Cons: "listen l (i # is) = fst (handle_input i l) # listen (snd (handle_input i l)) is"
  by (simp split: prod.splits)

lemma listen_emit_after_last:
  assumes "\<And>ty. 0 \<le> throttle_of l ty" and "j < length is" and "listen l is ! j \<noteq> None"
  shows "input_time (is ! j) - last_time_of l (input_type (is ! j)) > throttle_of l (input_type (is ! j))"
  using assms
proof (induction "is" arbitrary: l j)
  case Nil
  then show ?case by simp
next
  case (Cons i "is")
  let ?l' = "snd (handle_input i l)"
  show ?case
  proof (cases j)
    case 0
    with Cons.prems show ?thesis
      using handle_input_emits [of i l] by (simp add: listen_Cons del: listen.simps)
  next
    case (Suc j')
    have thr: "\<And>ty. 0 \<le> throttle_of ?l' ty"
      using Cons.prems(1) by (simp add: handle_input_throttle)
    from Suc Cons.prems have "j' < length is" and "listen ?l' is ! j' \<noteq> None"
      by (simp_all add: listen_Cons del: listen.simps)
    from Cons.IH [OF thr this]
    have "input_time (is ! j') - last_time_of ?l' (input_type (is ! j')) >
            throttle_of l (input_type (is ! j'))"
      by (simp add: handle_input_throttle)
    moreover have "last_time_of l (input_type (is ! j')) \<le> last_time_of ?l' (input_type (is ! j'))"
      using Cons.prems(1) by (rule handle_input_last_mono)
    ultimately show ?thesis using Suc by simp
  qed
qed

lemma listen_emits_spaced:
  assumes "\<And>ty. 0 \<le> throttle_of l ty" and "i < j" and "j < length is"
    and "input_type (is ! i) = input_type (is ! j)"
    and "listen l is ! i \<noteq> None" and "listen l is ! j \<noteq> None"
  shows "input_time (is ! j) - input_time (is ! i) > throttle_of l (input_type (is ! i))"
  using assms
proof (induction "is" arbitrary: l i j)
  case Nil
  then show ?case by simp
next
  case (Cons x "is")
  let ?l' = "snd (handle_input x l)"
  have thr: "\<And>ty. 0 \<le> throttle_of ?l' ty"
    using Cons.prems(1) by (simp add: handle_input_throttle)
  from Cons.prems(2) obtain j' where j: "j = Suc j'" by (cases j) simp_all
  with Cons.prems have j'len: "j' < length is" and j'out: "listen ?l' is ! j' \<noteq> None"
    by (simp_all add: listen_Cons del: listen.simps)
  show ?case
  proof (cases i)
    case 0
    with Cons.prems have emit: "fst (handle_input x l) \<noteq> None"
      by (simp add: listen_Cons del: listen.simps)
    from 0 j Cons.prems(4) have ty: "input_type (is ! j') = input_type x" by simp
    from listen_emit_after_last [OF thr j'len j'out]
    have "input_time (is ! j') - last_time_of ?l' (input_type x) > throttle_of l (input_type x)"
      by (simp add: ty handle_input_throttle)
    with handle_input_emits [OF emit] show ?thesis using 0 j by simp
  next
    case (Suc i')
    with j Cons.prems have "i' < j'" "input_type (is ! i') = input_type (is ! j')"
      "listen ?l' is ! i' \<noteq> None"
      by (simp_all add: listen_Cons del: listen.simps)
    from Cons.IH [OF thr this(1) j'len this(2) this(3) j'out]
    show ?thesis using Suc j by (simp add: handle_input_throttle)
  qed
qed

lemma listen_cong_type:
  assumes "\<forall>i \<in> set is. input_type i = ty"
    and "last_time_of l1 ty = last_time_of l2 ty" and "throttle_of l1 ty = throttle_of l2 ty"
  shows "listen l1 is = listen l2 is"
  using assms
proof (induction "is" arbitrary: l1 l2)
  case Nil
  then show ?case by simp
next
  case (Cons x "is")
  from Cons.prems have x: "input_type x = ty" by simp
  have out: "fst (handle_input x l1) = fst (handle_input x l2)"
    using Cons.prems(2,3) x
    by (cases x; cases ty) (auto simp: last_time_of_def throttle_of_def on_press_def on_click_def)
  have lt: "last_time_of (snd (handle_input x l1)) ty = last_time_of (snd (handle_input x l2)) ty"
    using Cons.prems(2,3) x
    by (cases x; cases ty) (auto simp: last_time_of_def throttle_of_def on_press_def on_click_def)
  have th: "throttle_of (snd (handle_input x l1)) ty = throttle_of (snd (handle_input x l2)) ty"
    using Cons.prems(3) by (simp add: handle_input_throttle)
  have "listen (snd (handle_input x l1)) is = listen (snd (handle_input x l2)) is"
    using Cons.prems(1) by (intro Cons.IH [OF _ lt th]) simp
  with out show ?case by (simp add: listen_Cons del: listen.simps)
qed

lemma listen_per_type:
  "outputs_of_type ty is (listen l is) = listen l (filter (\<lambda>i. input_type i = ty) is)"
proof (induction "is" arbitrary: l)
  case Nil
  then show ?case by (simp add: outputs_of_type_def)
next
  case (Cons x "is")
  let ?l' = "snd (handle_input x l)"
  have IH: "outputs_of_type ty is (listen ?l' is) = listen ?l' (filter (\<lambda>i. input_type i = ty) is)"
    by (rule Cons.IH)
  show ?case
  proof (cases "input_type x = ty")
    case True
    then show ?thesis using IH
      by (simp add: outputs_of_type_def listen_Cons del: listen.simps)
  next
    case False
    have "listen ?l' (filter (\<lambda>i. input_type i = ty) is) = listen l (filter (\<lambda>i. input_type i = ty) is)"
      by (rule listen_cong_type [where ty = ty])
         (simp_all add: handle_input_other_type [OF False] handle_input_throttle)
    with False IH show ?thesis
      by (simp add: outputs_of_type_def listen_Cons del: listen.simps)
  qed
qed

text \<open>
  C6. With both throttle intervals at 0.05 seconds, take any stream of notifications and
  any two of them of the same type whose times differ by less than 0.05: at most one of
  the two is emitted to \<^verbatim>\<open>record_event\<close>. The types are throttled independently:
  what is emitted for the notifications of one type is what the listener would emit if
  the notifications of the other type were not there.
\<close>

theorem throttle_collapses_close_events:
  assumes "keyboard_throttle l = 5 / 100" and "mouse_throttle l = 5 / 100"
    and "i < j" and "j < length is"
    and "input_type (is ! i) = input_type (is ! j)"
    and "\<bar>input_time (is ! j) - input_time (is ! i)\<bar> < 5 / 100"
  shows "(listen l is ! i = None \<or> listen l is ! j = None) \<and>
         outputs_of_type Keyboard is (listen l is) = listen l (filter (\<lambda>x. input_type x = Keyboard) is) \<and>
         outputs_of_type Mouse is (listen l is) = listen l (filter (\<lambda>x. input_type x = Mouse) is)"
proof -
  have thr: "\<And>ty. throttle_of l ty = 5 / 100"
    using assms(1,2) by (simp add: throttle_of_def split: event_type.splits)
  have nonneg: "\<And>ty. 0 \<le> throttle_of l ty" by (subst thr) simp
  have "listen l is ! i = None \<or> listen l is ! j = None"
  proof (rule ccontr)
    assume "\<not> ?thesis"
    then have "listen l is ! i \<noteq> None" "listen l is ! j \<noteq> None" by simp_all
    from listen_emits_spaced [OF nonneg assms(3,4,5) this]
    have "input_time (is ! j) - input_time (is ! i) > 5 / 100" by (simp add: thr)
    with assms(6) show False by simp
  qed
  then show ?thesis by (simp add: listen_per_type)
qed

theorem throttle_collapses_close_events_witness:
  "keyboard_throttle new_event_listener = 5 / 100 \<and> mouse_throttle new_event_listener = 5 / 100 \<and>
   (0::nat) < 1 \<and> 1 < length [Press 1000, Press (100003 / 100), Click True (100004 / 100)] \<and>
   input_type ([Press 1000, Press (100003 / 100), Click True (100004 / 100)] ! 0) =
     input_type ([Press 1000, Press (100003 / 100), Click True (100004 / 100)] ! 1) \<and>
   \<bar>input_time ([Press 1000, Press (100003 / 100), Click True (100004 / 100)] ! 1) -
     input_time ([Press 1000, Press (100003 / 100), Click True (100004 / 100)] ! 0)\<bar> < 5 / 100 \<and>
   (listen new_event_listener [Press 1000, Press (100003 / 100), Click True (100004 / 100)] ! 0 = None \<or>
    listen new_event_listener [Press 1000, Press (100003 / 100), Click True (100004 / 100)] ! 1 = None) \<and>
   listen new_event_listener [Press 1000, Press (100003 / 100), Click True (100004 / 100)] =
     [Some (Keyboard, 1000), None, Some (Mouse, 1000)]"
proof -
  let ?is = "[Press 1000, Press (100003 / 100), Click True (100004 / 100)]"
  have h1: "keyboard_throttle new_event_listener = 5 / 100"
    and h2: "mouse_throttle new_event_listener = 5 / 100"
    by (simp_all add: new_event_listener_def)
  have h3: "(0::nat) < 1" and h4: "1 < length ?is" by simp_all
  have h5: "input_type (?is ! 0) = input_type (?is ! 1)" by simp
  have h6: "\<bar>input_time (?is ! 1) - input_time (?is ! 0)\<bar> < 5 / 100" by simp
  note t = throttle_collapses_close_events [OF h1 h2 h3 h4 h5 h6]
  have e: "listen new_event_listener ?is = [Some (Keyboard, 1000), None, Some (Mouse, 1000)]"
    by code_simp
  note d = conjunct1 [OF t]
  show ?thesis by (intro conjI h1 h2 h3 h4 h5 h6 d e)
qed

section \<open>Properties of the score\<close>

lemma score_sum_split:
  "sum_list (map (\<lambda>e. if event_type e = Keyboard then 1 else 5) grp) =
     sum_list (map (\<lambda>e. if event_type e = Keyboard then 1 else 0) grp) * 1 +
     sum_list (map (\<lambda>e. if event_type e = Mouse then 1 else 0) grp) * (5::int)"
proof (induction grp)
  case Nil
  then show ?case by simp
next
  case (Cons e grp)
  then show ?case by (cases "event_type e") simp_all
qed

lemma group_row_score:
  "score (group_row k grp) = keyboard_count (group_row k grp) * 1 + mouse_count (group_row k grp) * 5"
  using score_sum_split [of grp] by (simp add: group_row_def)

lemma aggregate_select_score:
  assumes "r \<in> set (aggregate_select period cutoff raw)"
  shows "score r = keyboard_count r * 1 + mouse_count r * 5"
proof -
  from assms obtain k grp where "r = group_row k grp"
    unfolding aggregate_select_def Let_def by auto
  then show ?thesis by (simp only: group_row_score)
qed

lemma set_insert_or_replace_all_subset:
  "set (insert_or_replace_all rows T) \<subseteq> set T \<union> set rows"
  unfolding insert_or_replace_all_def
proof (induction rows arbitrary: T)
  case Nil
  then show ?case by simp
next
  case (Cons a rows)
  have "set (insert_or_replace a T) \<subseteq> set T \<union> {a}"
    by (auto simp: insert_or_replace_def)
  with Cons [of "insert_or_replace a T"] show ?case by auto
qed

lemma set_delete_where_subset: "set (delete_where P T) \<subseteq> set T"
  by (auto simp: delete_where_def)

lemma aggregate_pass_rows:
  assumes "r \<in> set (aggregate_pass tz now raw T)"
  shows "r \<in> set T \<or> (\<exists>period cutoff. r \<in> set (aggregate_select period cutoff raw))"
proof -
  define T1 where "T1 = delete_where (\<lambda>r. like ''%-%-% %:%'' (time_period r)) T"
  define T2 where "T2 = insert_or_replace_all (aggregate_select (period_15min tz) (now - 2 * 86400) raw) T1"
  define T3 where "T3 = insert_or_replace_all (aggregate_select (period_30min tz) (now - 7 * 86400) raw) T2"
  define T4 where "T4 = insert_or_replace_all (aggregate_select (period_day tz) (now - 30 * 86400) raw) T3"
  define T5 where "T5 = insert_or_replace_all (aggregate_select (period_week tz) (now - 365 * 86400) raw) T4"
  define T6 where "T6 = insert_or_replace_all (aggregate_select (period_month tz) (now - 365 * 86400) raw) T5"
  define S where "S = {r. \<exists>period cutoff. r \<in> set (aggregate_select period cutoff raw)}"
  have s1: "set T1 \<subseteq> set T" unfolding T1_def by (rule set_delete_where_subset)
  have s2: "set T2 \<subseteq> set T1 \<union> S"
    using set_insert_or_replace_all_subset [of _ T1] unfolding T2_def S_def by blast
  have s3: "set T3 \<subseteq> set T2 \<union> S"
    using set_insert_or_replace_all_subset [of _ T2] unfolding T3_def S_def by blast
  have s4: "set T4 \<subseteq> set T3 \<union> S"
    using set_insert_or_replace_all_subset [of _ T3] unfolding T4_def S_def by blast
  have s5: "set T5 \<subseteq> set T4 \<union> S"
    using set_insert_or_replace_all_subset [of _ T4] unfolding T5_def S_def by blast
  have s6: "set T6 \<subseteq> set T5 \<union> S"
    using set_insert_or_replace_all_subset [of _ T5] unfolding T6_def S_def by blast
  have "aggregate_pass tz now raw T = T6"
    by (simp add: aggregate_pass_def Let_def T1_def T2_def T3_def T4_def T5_def T6_def)
  with assms have "r \<in> set T6" by simp
  with s1 s2 s3 s4 s5 s6 have "r \<in> set T \<or> r \<in> S" by blast
  then show ?thesis by (simp add: S_def)
qed

lemma calculate_score_default:
  assumes "keyboard_weight c = 1" and "mouse_weight c = 5" and "memo_consistent c"
  shows "fst (calculate_score cnts c) = dict_get cnts ''keyboard'' 0 * 1 + dict_get cnts ''mouse'' 0 * 5"
  using assms
  by (auto simp: calculate_score_def memo_consistent_def Let_def split: prod.splits)

lemma calculate_score_keeps_memo:
  assumes "memo_consistent c"
  shows "memo_consistent (snd (calculate_score cnts c))"
  using assms
  by (auto simp: calculate_score_def memo_consistent_def Let_def split: prod.splits)

lemma calculate_score_keeps_weights:
  "keyboard_weight (snd (calculate_score cnts c)) = keyboard_weight c \<and>
   mouse_weight (snd (calculate_score cnts c)) = mouse_weight c"
  by (simp add: calculate_score_def Let_def)

lemma update_weights_keeps_memo:
  assumes "memo_consistent c"
  shows "memo_consistent (update_weights k m c)"
  using assms by (simp add: update_weights_def memo_consistent_def split: prod.splits)

text \<open>
  C5. Every row an aggregation statement computes has
  \<open>score = keyboard_count * 1 + mouse_count * 5\<close>, and a table all of whose rows satisfy
  this (the empty table for one) still does after an aggregation pass. A new
  \<^verbatim>\<open>ScoreCalculator\<close> has a memo that agrees with its weights, and
  \<^verbatim>\<open>calculate_score\<close> and \<^verbatim>\<open>update_weights\<close> keep it so; with such a memo and the
  default weights 1 and 5, \<^verbatim>\<open>calculate_score\<close> returns
  \<open>keyboard * 1 + mouse * 5\<close>, from the memo or not. The bucket of the scenario, three
  keyboard events and one mouse event, gets the counts 3 and 1 and the score 8.
\<close>

theorem score_is_weighted_sum:
  "(\<forall>r \<in> set (aggregate_select period cutoff raw). score r = keyboard_count r * 1 + mouse_count r * 5) \<and>
   ((\<forall>r \<in> set T. score r = keyboard_count r * 1 + mouse_count r * 5) \<longrightarrow>
    (\<forall>r \<in> set (aggregate_pass tz now raw T). score r = keyboard_count r * 1 + mouse_count r * 5)) \<and>
   memo_consistent new_score_calculator \<and>
   (memo_consistent c \<longrightarrow>
      memo_consistent (snd (calculate_score cnts c)) \<and> memo_consistent (update_weights k m c)) \<and>
   (keyboard_weight c = 1 \<and> mouse_weight c = 5 \<and> memo_consistent c \<longrightarrow>
      fst (calculate_score cnts c) = dict_get cnts ''keyboard'' 0 * 1 + dict_get cnts ''mouse'' 0 * 5 \<and>
      keyboard_weight (snd (calculate_score cnts c)) = 1 \<and>
      mouse_weight (snd (calculate_score cnts c)) = 5) \<and>
   aggregate_select (period_15min (\<lambda>t. 0)) 0 scenario_events =
     [\<lparr>time_period = ''1970-01-01 00:00'', keyboard_count = 3, mouse_count = 1, score = 8\<rparr>]"
proof (intro conjI)
  show "\<forall>r \<in> set (aggregate_select period cutoff raw). score r = keyboard_count r * 1 + mouse_count r * 5"
    using aggregate_select_score by blast
  show "(\<forall>r \<in> set T. score r = keyboard_count r * 1 + mouse_count r * 5) \<longrightarrow>
    (\<forall>r \<in> set (aggregate_pass tz now raw T). score r = keyboard_count r * 1 + mouse_count r * 5)"
    using aggregate_pass_rows aggregate_select_score by blast
  show "memo_consistent new_score_calculator"
    by (simp add: memo_consistent_def new_score_calculator_def)
  show "memo_consistent c \<longrightarrow>
      memo_consistent (snd (calculate_score cnts c)) \<and> memo_consistent (update_weights k m c)"
    using calculate_score_keeps_memo update_weights_keeps_memo by blast
  show "keyboard_weight c = 1 \<and> mouse_weight c = 5 \<and> memo_consistent c \<longrightarrow>
      fst (calculate_score cnts c) = dict_get cnts ''keyboard'' 0 * 1 + dict_get cnts ''mouse'' 0 * 5 \<and>
      keyboard_weight (snd (calculate_score cnts c)) = 1 \<and>
      mouse_weight (snd (calculate_score cnts c)) = 5"
    using calculate_score_default [of c cnts] calculate_score_keeps_weights [of cnts c] by simp
  have keys: "period_15min (\<lambda>t. 0) 100 = ''1970-01-01 00:00''"
    "period_15min (\<lambda>t. 0) 101 = ''1970-01-01 00:00''"
    "period_15min (\<lambda>t. 0) 102 = ''1970-01-01 00:00''"
    by code_simp+
  show "aggregate_select (period_15min (\<lambda>t. 0)) 0 scenario_events =
     [\<lparr>time_period = ''1970-01-01 00:00'', keyboard_count = 3, mouse_count = 1, score = 8\<rparr>]"
    by (simp add: aggregate_select_def group_row_def scenario_events_def keys)
qed

theorem score_is_weighted_sum_witness:
  "memo_consistent new_score_calculator \<and>
   keyboard_weight new_score_calculator = 1 \<and> mouse_weight new_score_calculator = 5 \<and>
   fst (calculate_score [''keyboard'' \<mapsto> 3, ''mouse'' \<mapsto> 1] new_score_calculator) = 3 * 1 + 1 * 5 \<and>
   fst (calculate_score [''keyboard'' \<mapsto> 3, ''mouse'' \<mapsto> 1]
          (snd (calculate_score [''keyboard'' \<mapsto> 3, ''mouse'' \<mapsto> 1] new_score_calculator))) = 8 \<and>
   \<lparr>time_period = ''1970-01-01 00:00'', keyboard_count = 3, mouse_count = 1, score = 8\<rparr>
     \<in> set (aggregate_select (period_15min (\<lambda>t. 0)) 0 scenario_events) \<and>
   aggregate_pass (\<lambda>t. 0) 200 []
     [\<lparr>time_period = ''1969-12-31'', keyboard_count = 2, mouse_count = 1, score = 7\<rparr>] =
     [\<lparr>time_period = ''1969-12-31'', keyboard_count = 2, mouse_count = 1, score = 7\<rparr>] \<and>
   score \<lparr>time_period = ''1969-12-31'', keyboard_count = 2, mouse_count = 1, score = 7\<rparr> = 2 * 1 + 1 * 5"
proof -
  let ?cnts = "[''keyboard'' \<mapsto> 3::int, ''mouse'' \<mapsto> 1]"
  let ?c1 = "snd (calculate_score ?cnts new_score_calculator)"
  let ?row = "\<lparr>time_period = ''1969-12-31'', keyboard_count = 2, mouse_count = 1, score = 7\<rparr>"
  note t0 = score_is_weighted_sum
    [where c = new_score_calculator and cnts = ?cnts and T = "[?row]" and raw = "[]"
       and tz = "\<lambda>t. 0" and now = 200]
  note t1 = score_is_weighted_sum [where c = ?c1 and cnts = ?cnts]
  have g: "dict_get ?cnts ''keyboard'' 0 = 3" "dict_get ?cnts ''mouse'' 0 = 1"
    by (simp_all add: dict_get_def)
  have w: "keyboard_weight new_score_calculator = 1" "mouse_weight new_score_calculator = 5"
    by (simp_all add: new_score_calculator_def)
  from t0 have m0: "memo_consistent new_score_calculator" by blast
  with t0 w have r0: "fst (calculate_score ?cnts new_score_calculator) = 3 * 1 + 1 * 5"
    and w1: "keyboard_weight ?c1 = 1" "mouse_weight ?c1 = 5" and m1: "memo_consistent ?c1"
    by (simp_all add: g)
  with t1 have r1: "fst (calculate_score ?cnts ?c1) = 8" by (simp add: g)
  from t0 have sel: "\<lparr>time_period = ''1970-01-01 00:00'', keyboard_count = 3, mouse_count = 1, score = 8\<rparr>
     \<in> set (aggregate_select (period_15min (\<lambda>t. 0)) 0 scenario_events)"
    by simp
  have p: "aggregate_pass (\<lambda>t. 0) 200 [] [?row] = [?row]"
    by code_simp
  have "\<forall>r \<in> set [?row]. score r = keyboard_count r * 1 + mouse_count r * 5" by simp
  with t0 have "\<forall>r \<in> set (aggregate_pass (\<lambda>t. 0) 200 [] [?row]).
      score r = keyboard_count r * 1 + mouse_count r * 5"
    by blast
  then have s: "score ?row = 2 * 1 + 1 * 5" by (simp add: p)
  show ?thesis by (intro conjI m0 w r0 r1 sel p s)
qed

section \<open>Properties of the aggregation pass\<close>

lemma aggregate_pass_alt:
  "aggregate_pass tz now raw T =
     insert_or_replace_all (pass_rows tz now raw) (delete_where minute_level T)"
proof -
  have m: "minute_level = (\<lambda>r. like ''%-%-% %:%'' (time_period r))"
    by (rule ext) (simp add: minute_level_def)
  show ?thesis
    by (simp add: aggregate_pass_def pass_rows_def insert_or_replace_all_def Let_def m)
qed

lemma insert_or_replace_all_Cons:
  "insert_or_replace_all (g # G) T = insert_or_replace_all G (insert_or_replace g T)"
  by (simp add: insert_or_replace_all_def)

lemma insert_or_replace_all_split:
  "insert_or_replace_all rows T =
     filter (\<lambda>x. time_period x \<notin> time_period ` set rows) T @ insert_or_replace_all rows []"
proof (induction rows arbitrary: T)
  case Nil
  show ?case by (simp add: insert_or_replace_all_def)
next
  case (Cons g G)
  let ?K = "time_period ` set G"
  have a: "insert_or_replace_all (g # G) T =
      filter (\<lambda>x. time_period x \<notin> ?K) (insert_or_replace g T) @ insert_or_replace_all G []"
    unfolding insert_or_replace_all_Cons by (rule Cons.IH)
  have b: "insert_or_replace_all (g # G) [] =
      filter (\<lambda>x. time_period x \<notin> ?K) [g] @ insert_or_replace_all G []"
    unfolding insert_or_replace_all_Cons
    using Cons.IH [of "[g]"] by (simp add: insert_or_replace_def)
  have c: "filter (\<lambda>x. time_period x \<notin> ?K) (insert_or_replace g T) =
      filter (\<lambda>x. time_period x \<notin> time_period ` set (g # G)) T @
      filter (\<lambda>x. time_period x \<notin> ?K) [g]"
    by (auto simp: insert_or_replace_def intro: filter_cong)
  show ?case unfolding a b c by simp
qed

lemma insert_or_replace_all_nil_rows:
  "set (insert_or_replace_all rows []) \<subseteq> set rows"
  using set_insert_or_replace_all_subset [of rows "[]"] by simp

lemma filter_written_rows_empty:
  "filter (\<lambda>x. time_period x \<notin> time_period ` set rows) (filter P (insert_or_replace_all rows [])) = []"
  using insert_or_replace_all_nil_rows [of rows] by (auto simp: filter_empty_conv)

text \<open>
  C2. For a fixed \<^verbatim>\<open>raw_events\<close> table and a fixed current time, running the
  aggregation computation on its own result gives that result again: the aggregate table
  after two runs in succession is the table after one run, row for row. The same holds
  for \<^verbatim>\<open>_do_calculate_aggregates\<close> on the whole manager state, storage failing or not.
\<close>

theorem aggregation_idempotent:
  "aggregate_pass tz now raw (aggregate_pass tz now raw T) = aggregate_pass tz now raw T \<and>
   do_calculate_aggregates tz now (do_calculate_aggregates tz now d) =
     do_calculate_aggregates tz now d"
proof -
  have p: "aggregate_pass tz now raw (aggregate_pass tz now raw T) = aggregate_pass tz now raw T"
    for raw T
  proof -
    let ?G = "pass_rows tz now raw"
    let ?keep = "\<lambda>x. time_period x \<notin> time_period ` set ?G"
    let ?W = "insert_or_replace_all ?G []"
    let ?D = "delete_where minute_level"
    have one: "aggregate_pass tz now raw T = filter ?keep (?D T) @ ?W"
      unfolding aggregate_pass_alt by (rule insert_or_replace_all_split)
    have two: "aggregate_pass tz now raw (filter ?keep (?D T) @ ?W) =
        filter ?keep (?D (filter ?keep (?D T) @ ?W)) @ ?W"
      unfolding aggregate_pass_alt by (rule insert_or_replace_all_split)
    have e1: "filter ?keep (?D ?W) = []"
      using filter_written_rows_empty [of ?G "\<lambda>x. \<not> minute_level x"]
      by (simp add: delete_where_def)
    have e2: "filter ?keep (?D (filter ?keep (?D T))) = filter ?keep (?D T)"
      by (induction T) (simp_all add: delete_where_def)
    have "?D (filter ?keep (?D T) @ ?W) = ?D (filter ?keep (?D T)) @ ?D ?W"
      by (simp add: delete_where_def)
    then have "filter ?keep (?D (filter ?keep (?D T) @ ?W)) = filter ?keep (?D T)"
      using e1 e2 by simp
    with one two show ?thesis by simp
  qed
  have "do_calculate_aggregates tz now (do_calculate_aggregates tz now d) =
     do_calculate_aggregates tz now d"
    by (simp add: do_calculate_aggregates_def p split: option.splits)
  with p show ?thesis by simp
qed

section \<open>Properties of LIKE and of the period keys\<close>

lemma like_all: "like ''%'' s"
  by (induction s) simp_all

lemma like_skip:
  assumes "like (CHR ''%'' # ps) ys"
  shows "like (CHR ''%'' # ps) (xs @ ys)"
  using assms by (induction xs) simp_all

lemma like_percent_here:
  assumes "like ps ys"
  shows "like (CHR ''%'' # ps) ys"
  using assms by (cases ys) simp_all

lemma like_segment:
  assumes "c \<noteq> CHR ''%''" and "c \<noteq> CHR ''_''" and "like ps ys"
  shows "like (CHR ''%'' # c # ps) (xs @ c # ys)"
proof -
  from assms have "like (c # ps) (c # ys)" by simp
  then have "like (CHR ''%'' # c # ps) (c # ys)" by (rule like_percent_here)
  then show ?thesis by (rule like_skip)
qed

lemma like_needs_literal:
  assumes "like ps s" and "p \<in> set ps" and "p \<noteq> CHR ''%''" and "p \<noteq> CHR ''_''"
  shows "\<exists>c \<in> set s. ascii_lower c = ascii_lower p"
  using assms
  by (induction ps s rule: like.induct) (auto split: if_splits)

lemma like_minute_shape:
  "like ''%-%-% %:%'' (y @ CHR ''-'' # m @ CHR ''-'' # d @ CHR '' '' # h @ CHR '':'' # mm)"
  by (intro like_segment like_all) simp_all

lemma digit_in_digits: "digit n \<in> set ''0123456789''"
proof -
  have "nat (n mod 10) < length ''0123456789''" by simp
  then show ?thesis unfolding digit_def by (rule nth_mem)
qed

lemma spaceless_append [simp]: "spaceless (a @ b) = (spaceless a \<and> spaceless b)"
  by (auto simp: spaceless_def)

lemma spaceless_digit: "ascii_lower (digit n) \<noteq> ascii_lower CHR '' ''"
proof -
  have "spaceless ''0123456789''" by code_simp
  with digit_in_digits [of n] show ?thesis unfolding spaceless_def by blast
qed


lemma spaceless_Cons [simp]:
  "spaceless (c # s) = (ascii_lower c \<noteq> ascii_lower CHR '' '' \<and> spaceless s)"
  by (simp add: spaceless_def)

lemma separators_not_space [simp]:
  "ascii_lower CHR ''-'' \<noteq> ascii_lower CHR '' ''" "ascii_lower CHR ''W'' \<noteq> ascii_lower CHR '' ''"
  by code_simp+

lemma spaceless_pad [simp]: "spaceless (pad2 n)" "spaceless (pad4 n)"
  by (simp_all add: pad2_def pad4_def spaceless_digit) (simp_all add: spaceless_def)

lemma spaceless_period:
  "spaceless (period_day tz t)" "spaceless (period_week tz t)" "spaceless (period_month tz t)"
  by (simp_all add: period_day_def period_week_def period_month_def split: prod.splits)

lemma spaceless_not_minute_level:
  assumes "spaceless (time_period r)"
  shows "\<not> minute_level r"
proof
  assume "minute_level r"
  then have "like ''%-%-% %:%'' (time_period r)" by (simp add: minute_level_def)
  then have "\<exists>c \<in> set (time_period r). ascii_lower c = ascii_lower CHR '' ''"
    by (rule like_needs_literal) simp_all
  with assms show False unfolding spaceless_def by blast
qed

lemma period_minute_level:
  "like ''%-%-% %:%'' (period_15min tz t)" "like ''%-%-% %:%'' (period_30min tz t)"
  by (simp_all add: period_15min_def period_30min_def period_hour_prefix_def period_day_def
        like_minute_shape split: prod.splits del: like.simps)

lemma length_pad [simp]: "length (pad2 n) = 2" "length (pad4 n) = 4"
  by (simp_all add: pad2_def pad4_def)

lemma length_period [simp]:
  "length (period_month tz t) = 7" "length (period_week tz t) = 8"
  "length (period_day tz t) = 10" "length (period_15min tz t) = 16"
  "length (period_30min tz t) = 16"
  by (simp_all add: period_month_def period_week_def period_day_def period_15min_def
        period_30min_def period_hour_prefix_def split: prod.splits)

section \<open>What a pass deletes\<close>

lemma history_keys:
  "period_15min (\<lambda>t. 0) 1704104400 = ''2024-01-01 10:15''"
  "period_30min (\<lambda>t. 0) 1704104400 = ''2024-01-01 10:00''"
  "period_day (\<lambda>t. 0) 1704104400 = ''2024-01-01''"
  "period_week (\<lambda>t. 0) 1704104400 = ''2024-W01''"
  "period_month (\<lambda>t. 0) 1704104400 = ''2024-01''"
  by code_simp+

lemma history_like:
  "like ''%-%-% %:%'' ''2024-01-01 10:15''" "like ''%-%-% %:%'' ''2024-01-01 10:00''"
  "\<not> like ''%-%-% %:%'' ''2024-01-01''" "\<not> like ''%-%-% %:%'' ''2024-W01''"
  "\<not> like ''%-%-% %:%'' ''2024-01''"
  by code_simp+

lemma aggregate_select_single:
  "aggregate_select period cutoff [e] =
     (if cutoff \<le> timestamp e then [group_row (period (timestamp e)) [e]] else [])"
  by (simp add: aggregate_select_def Let_def)

lemma first_run:
  "aggregate_pass (\<lambda>t. 0) 1704104700 history_events [] = first_run_table"
  by (simp add: aggregate_pass_def aggregate_select_single group_row_def history_keys
        history_events_def first_run_table_def
        delete_where_def insert_or_replace_all_def insert_or_replace_def del: like.simps)

lemma second_run:
  "aggregate_pass (\<lambda>t. 0) 1704363900 history_events first_run_table = second_run_table"
  by (simp add: aggregate_pass_def aggregate_select_single group_row_def history_keys history_like
        history_events_def first_run_table_def second_run_table_def
        delete_where_def insert_or_replace_all_def insert_or_replace_def del: like.simps)

text \<open>
  C4, as stated, fails. The 15-minute bucket 10:15 of 2024-01-01 is computed by the first
  run. At the second run, three days later, the whole bucket lies before the 2-day
  horizon of the 15-minute granularity, yet the run deletes it (and does not recompute
  it): no row with that key is left.
\<close>

theorem horizon_deletion_counterexample:
  "\<lparr>time_period = period_15min (\<lambda>t. 0) 1704104400, keyboard_count = 1, mouse_count = 0, score = 1\<rparr>
     \<in> set (aggregate_pass (\<lambda>t. 0) 1704104700 history_events []) \<and>
   (1704104400::int) + 900 < 1704363900 - 2 * 86400 \<and>
   period_15min (\<lambda>t. 0) 1704104400 \<notin>
     time_period ` set (aggregate_pass (\<lambda>t. 0) 1704363900 history_events
                          (aggregate_pass (\<lambda>t. 0) 1704104700 history_events []))"
proof -
  have a: "\<lparr>time_period = period_15min (\<lambda>t. 0) 1704104400, keyboard_count = 1, mouse_count = 0, score = 1\<rparr>
     \<in> set (aggregate_pass (\<lambda>t. 0) 1704104700 history_events [])"
    by (simp add: first_run first_run_table_def history_keys)
  have b: "(1704104400::int) + 900 < 1704363900 - 2 * 86400" by simp
  have "aggregate_pass (\<lambda>t. 0) 1704363900 history_events
          (aggregate_pass (\<lambda>t. 0) 1704104700 history_events []) = second_run_table"
    by (simp only: first_run second_run)
  then have c: "period_15min (\<lambda>t. 0) 1704104400 \<notin>
     time_period ` set (aggregate_pass (\<lambda>t. 0) 1704363900 history_events
                          (aggregate_pass (\<lambda>t. 0) 1704104700 history_events []))"
    by (simp add: second_run_table_def history_keys)
  show ?thesis by (intro conjI a b c)
qed

text \<open>
  C4, amended. A pass deletes exactly the rows whose key matches the minute-level
  pattern \<^verbatim>\<open>'%-%-% %:%'\<close>, whatever their age, and no other row: the table after the
  pass is the old rows that are neither minute-level nor recomputed, followed by the
  recomputed rows. So an old row whose period is not recomputed is still there exactly if
  it is not minute-level. Every 15-minute and 30-minute key is minute-level; no daily,
  weekly or monthly key is, so such buckets are never deleted, only replaced when their
  period is recomputed.
\<close>

theorem aggregation_deletes_minute_rows:
  "aggregate_pass tz now raw T =
     filter (\<lambda>x. time_period x \<notin> time_period ` set (pass_rows tz now raw))
            (delete_where minute_level T) @
     insert_or_replace_all (pass_rows tz now raw) [] \<and>
   set (delete_where minute_level T) = {x \<in> set T. \<not> minute_level x} \<and>
   (r \<in> set T \<and> time_period r \<notin> time_period ` set (pass_rows tz now raw) \<longrightarrow>
      (r \<in> set (aggregate_pass tz now raw T) \<longleftrightarrow> \<not> minute_level r)) \<and>
   (time_period r = period_15min tz t \<or> time_period r = period_30min tz t \<longrightarrow> minute_level r) \<and>
   (time_period r = period_day tz t \<or> time_period r = period_week tz t \<or>
    time_period r = period_month tz t \<longrightarrow> \<not> minute_level r)"
proof (intro conjI)
  let ?G = "pass_rows tz now raw"
  show one: "aggregate_pass tz now raw T =
     filter (\<lambda>x. time_period x \<notin> time_period ` set ?G) (delete_where minute_level T) @
     insert_or_replace_all ?G []"
    unfolding aggregate_pass_alt by (rule insert_or_replace_all_split)
  show "set (delete_where minute_level T) = {x \<in> set T. \<not> minute_level x}"
    by (auto simp: delete_where_def)
  show "r \<in> set T \<and> time_period r \<notin> time_period ` set ?G \<longrightarrow>
      (r \<in> set (aggregate_pass tz now raw T) \<longleftrightarrow> \<not> minute_level r)"
  proof
    assume a: "r \<in> set T \<and> time_period r \<notin> time_period ` set ?G"
    then have "r \<notin> set (insert_or_replace_all ?G [])"
      using insert_or_replace_all_nil_rows [of ?G] by blast
    with a show "r \<in> set (aggregate_pass tz now raw T) \<longleftrightarrow> \<not> minute_level r"
      unfolding one by (simp add: delete_where_def)
  qed
  show "time_period r = period_15min tz t \<or> time_period r = period_30min tz t \<longrightarrow> minute_level r"
    using period_minute_level [of tz t] by (auto simp: minute_level_def simp del: like.simps)
  show "time_period r = period_day tz t \<or> time_period r = period_week tz t \<or>
    time_period r = period_month tz t \<longrightarrow> \<not> minute_level r"
    using spaceless_period [of tz t] spaceless_not_minute_level [of r] by auto
qed

theorem aggregation_deletes_minute_rows_witness:
  "\<lparr>time_period = ''2024-01-01 10:15'', keyboard_count = 1, mouse_count = 0, score = 1\<rparr>
     \<in> set first_run_table \<and>
   ''2024-01-01 10:15'' \<notin> time_period ` set (pass_rows (\<lambda>t. 0) 1704363900 history_events) \<and>
   ''2024-01-01 10:15'' = period_15min (\<lambda>t. 0) 1704104400 \<and>
   minute_level \<lparr>time_period = ''2024-01-01 10:15'', keyboard_count = 1, mouse_count = 0, score = 1\<rparr> \<and>
   \<lparr>time_period = ''2024-01-01 10:15'', keyboard_count = 1, mouse_count = 0, score = 1\<rparr>
     \<notin> set (aggregate_pass (\<lambda>t. 0) 1704363900 history_events first_run_table) \<and>
   \<lparr>time_period = ''2023-11-20'', keyboard_count = 7, mouse_count = 2, score = 17\<rparr>
     \<in> set (aggregate_pass (\<lambda>t. 0) 1704363900 history_events
              [\<lparr>time_period = ''2023-11-20'', keyboard_count = 7, mouse_count = 2, score = 17\<rparr>])"
proof -
  let ?r = "\<lparr>time_period = ''2024-01-01 10:15'', keyboard_count = 1, mouse_count = 0, score = 1\<rparr>"
  let ?d = "\<lparr>time_period = ''2023-11-20'', keyboard_count = 7, mouse_count = 2, score = 17\<rparr>"
  have rows: "pass_rows (\<lambda>t. 0) 1704363900 history_events = second_run_table"
    by (simp add: pass_rows_def aggregate_select_single group_row_def history_keys
          history_events_def second_run_table_def)
  have h1: "?r \<in> set first_run_table" by (simp add: first_run_table_def)
  have h2: "''2024-01-01 10:15'' \<notin> time_period ` set (pass_rows (\<lambda>t. 0) 1704363900 history_events)"
    by (simp add: rows second_run_table_def)
  have h3: "''2024-01-01 10:15'' = period_15min (\<lambda>t. 0) 1704104400"
    by (simp add: history_keys)
  note t = aggregation_deletes_minute_rows
    [where r = ?r and T = first_run_table and tz = "\<lambda>t. 0" and now = 1704363900
       and raw = history_events and t = 1704104400]
  note t3 = t [THEN conjunct2, THEN conjunct2, THEN conjunct1]
  note t4 = t [THEN conjunct2, THEN conjunct2, THEN conjunct2, THEN conjunct1]
  have m: "minute_level ?r" using t4 by (simp add: history_keys)
  have gone: "?r \<notin> set (aggregate_pass (\<lambda>t. 0) 1704363900 history_events first_run_table)"
    using t3 h1 h2 m by simp
  note t' = aggregation_deletes_minute_rows
    [where r = ?d and T = "[?d]" and tz = "\<lambda>t. 0" and now = 1704363900
       and raw = history_events and t = 1700438400]
  note t'3 = t' [THEN conjunct2, THEN conjunct2, THEN conjunct1]
  note t'5 = t' [THEN conjunct2, THEN conjunct2, THEN conjunct2, THEN conjunct2]
  have "period_day (\<lambda>t. 0) 1700438400 = ''2023-11-20''" by code_simp
  with t'5 have nm: "\<not> minute_level ?d" by simp
  have "time_period ?d \<notin> time_period ` set (pass_rows (\<lambda>t. 0) 1704363900 history_events)"
    by (simp add: rows second_run_table_def)
  with t'3 nm have kept: "?d \<in> set (aggregate_pass (\<lambda>t. 0) 1704363900 history_events [?d])"
    by simp
  show ?thesis by (intro conjI h1 h2 h3 m gone kept)
qed

section \<open>Properties of the count query\<close>

lemma sum_indicator:
  "sum_list (map (\<lambda>e. if P e then 1 else 0) xs) = int (length (filter P xs))"
  by (induction xs) simp_all

lemma or_zero_sql_sum: "or_zero (sql_sum xs) = sum_list xs"
  by (simp add: or_zero_def sql_sum_def)

lemma count_since_alt:
  "count_since ty t raw =
     int (length (filter (\<lambda>e. event_type e = ty) (filter (\<lambda>e. t \<le> real_of_int (timestamp e)) raw)))"
  by (simp add: count_since_def conj_commute)

lemma historical_counts_exact:
  "historical_counts t raw =
     \<lparr>keyboard = count_since Keyboard t raw, mouse = count_since Mouse t raw\<rparr>"
  by (simp only: historical_counts_def conditional_sum_query_def or_zero_sql_sum sum_indicator
        count_since_alt Let_def prod.case)

lemma fill_counts_grouped:
  "fill_counts (map (\<lambda>ty. (ty, f ty)) tys) result =
     \<lparr>keyboard = (if Keyboard \<in> set tys then f Keyboard else keyboard result),
      mouse = (if Mouse \<in> set tys then f Mouse else mouse result)\<rparr>"
proof (induction tys arbitrary: result)
  case Nil
  then show ?case by simp
next
  case (Cons ty tys)
  then show ?case by (cases ty) simp_all
qed

lemma count_absent_type:
  assumes "ty \<notin> set (map event_type sel)"
  shows "int (length (filter (\<lambda>e. event_type e = ty) sel)) = 0"
  using assms by (induction sel) auto

lemma recent_counts_exact:
  "recent_counts t raw =
     \<lparr>keyboard = count_since Keyboard t raw, mouse = count_since Mouse t raw\<rparr>"
proof -
  let ?sel = "filter (\<lambda>e. t \<le> real_of_int (timestamp e)) raw"
  let ?f = "\<lambda>ty. int (length (filter (\<lambda>e. event_type e = ty) ?sel))"
  have "recent_counts t raw =
      fill_counts (map (\<lambda>ty. (ty, ?f ty)) (remdups (map event_type ?sel))) \<lparr>keyboard = 0, mouse = 0\<rparr>"
    by (simp add: recent_counts_def grouped_count_query_def Let_def)
  also have "\<dots> = \<lparr>keyboard = ?f Keyboard, mouse = ?f Mouse\<rparr>"
    unfolding fill_counts_grouped
    using count_absent_type [of Keyboard ?sel] count_absent_type [of Mouse ?sel] by simp
  finally show ?thesis by (simp only: count_since_alt)
qed

text \<open>
  C1, as stated, fails: the answer can come from the cache. A first query for the window
  starting at 999 is made at time 1000 on an empty table and caches zero counts; a
  keyboard event with timestamp 999 is then stored; a second query 0.1 seconds after the
  first still returns zero keyboard events, while the table holds one with
  \<open>timestamp \<ge> 999\<close>.
\<close>

theorem stale_counts_counterexample:
  "fst (get_counts_since (10001 / 10) 999 stale_cache_service) = Inr \<lparr>keyboard = 0, mouse = 0\<rparr> \<and>
   raw_events (db stale_cache_service) = [\<lparr>timestamp = 999, event_type = Keyboard\<rparr>] \<and>
   count_since Keyboard 999 (raw_events (db stale_cache_service)) = 1"
  by code_simp

text \<open>
  C1, amended. The grouped-count path and the conditional-sum path compute the same
  result on every table, namely for each type the number of raw events of that type with
  \<open>timestamp \<ge> t\<close>. \<^verbatim>\<open>get_counts_since\<close> returns that result whenever it does not
  answer from its cache and storage answers; when it answers from the cache, it returns
  the cached entry and leaves the service as it is.
\<close>

theorem counts_since_exact_on_miss:
  "recent_counts t raw = \<lparr>keyboard = count_since Keyboard t raw, mouse = count_since Mouse t raw\<rparr> \<and>
   historical_counts t raw = recent_counts t raw \<and>
   (cached_counts current_time t s = None \<and> conn_error (db s) = None \<longrightarrow>
      fst (get_counts_since current_time t s) =
        Inr \<lparr>keyboard = count_since Keyboard t (raw_events (db s)),
             mouse = count_since Mouse t (raw_events (db s))\<rparr>) \<and>
   (cached_counts current_time t s = Some c \<longrightarrow> get_counts_since current_time t s = (Inr c, s))"
  by (simp add: recent_counts_exact historical_counts_exact get_counts_since_def Let_def)

theorem counts_since_exact_on_miss_witness:
  "cached_counts 103 100 (new_event_service (fresh_database_manager\<lparr>raw_events := scenario_events\<rparr>)) = None \<and>
   conn_error (db (new_event_service (fresh_database_manager\<lparr>raw_events := scenario_events\<rparr>))) = None \<and>
   fst (get_counts_since 103 100 (new_event_service (fresh_database_manager\<lparr>raw_events := scenario_events\<rparr>)))
     = Inr \<lparr>keyboard = 3, mouse = 1\<rparr> \<and>
   fst (get_counts_since 101 100 (new_event_service (fresh_database_manager\<lparr>raw_events := scenario_events\<rparr>)))
     = Inr \<lparr>keyboard = 3, mouse = 1\<rparr> \<and>
   cached_counts (10001 / 10) 999 stale_cache_service = Some \<lparr>keyboard = 0, mouse = 0\<rparr> \<and>
   get_counts_since (10001 / 10) 999 stale_cache_service =
     (Inr \<lparr>keyboard = 0, mouse = 0\<rparr>, stale_cache_service)"
proof -
  let ?s = "new_event_service (fresh_database_manager\<lparr>raw_events := scenario_events\<rparr>)"
  have h1: "cached_counts 103 100 ?s = None" and h1': "cached_counts 101 100 ?s = None"
    by (simp_all add: cached_counts_def new_event_service_def)
  have h2: "conn_error (db ?s) = None"
    by (simp add: new_event_service_def fresh_database_manager_def)
  have raw: "raw_events (db ?s) = scenario_events"
    by (simp add: new_event_service_def)
  have cnt: "count_since Keyboard 100 scenario_events = 3" "count_since Mouse 100 scenario_events = 1"
    by (simp_all add: count_since_def scenario_events_def)
  note t = counts_since_exact_on_miss [where s = ?s and t = 100]
  from t [where current_time = 103] h1 h2
  have r1: "fst (get_counts_since 103 100 ?s) = Inr \<lparr>keyboard = 3, mouse = 1\<rparr>"
    by (simp add: raw cnt)
  from t [where current_time = 101] h1' h2
  have r2: "fst (get_counts_since 101 100 ?s) = Inr \<lparr>keyboard = 3, mouse = 1\<rparr>"
    by (simp add: raw cnt)
  have h3: "cached_counts (10001 / 10) 999 stale_cache_service = Some \<lparr>keyboard = 0, mouse = 0\<rparr>"
    by code_simp
  with counts_since_exact_on_miss
    [where s = stale_cache_service and t = 999 and current_time = "10001 / 10"
       and c = "\<lparr>keyboard = 0, mouse = 0\<rparr>"]
  have r3: "get_counts_since (10001 / 10) 999 stale_cache_service =
     (Inr \<lparr>keyboard = 0, mouse = 0\<rparr>, stale_cache_service)"
    by blast
  show ?thesis by (intro conjI h1 h2 r1 r2 h3 r3)
qed

section \<open>Errors of the storage layer in the query operations\<close>

text \<open>
  C9. With storage raising an error, \<^verbatim>\<open>get_aggregated_data\<close> and
  \<^verbatim>\<open>get_today_aggregated_data\<close> catch it and return the empty list, but
  \<^verbatim>\<open>get_counts_since\<close>, when it does not answer from its cache, lets the error
  out to its caller: it has no handler.
\<close>

theorem query_errors_at_the_boundary:
  "conn_error (db s) = Some e \<longrightarrow>
     get_aggregated_data time_range limit s = Inr [] \<and>
     get_today_aggregated_data tz current_time time_range limit s = Inr [] \<and>
     (cached_counts current_time t s = None \<longrightarrow> get_counts_since current_time t s = (Inl e, s))"
  by (simp add: get_aggregated_data_def get_today_aggregated_data_def read_aggregated_def
        except_return_empty_def get_counts_since_def split: option.splits)

theorem query_errors_at_the_boundary_witness:
  "conn_error (db locked_service) = Some (SqliteError ''database is locked'') \<and>
   cached_counts 1000 990 locked_service = None \<and>
   get_aggregated_data ''day'' 30 locked_service = Inr [] \<and>
   get_today_aggregated_data (\<lambda>t. 0) 1000 ''15min'' 96 locked_service = Inr [] \<and>
   get_counts_since 1000 990 locked_service = (Inl (SqliteError ''database is locked''), locked_service)"
proof -
  have h1: "conn_error (db locked_service) = Some (SqliteError ''database is locked'')"
    by (simp add: locked_service_def new_event_service_def)
  have h2: "cached_counts 1000 990 locked_service = None"
    by (simp add: cached_counts_def locked_service_def new_event_service_def)
  note t1 = query_errors_at_the_boundary
    [where s = locked_service and e = "SqliteError ''database is locked''" and t = 990
       and current_time = 1000 and tz = "\<lambda>t. 0" and time_range = "''day''" and limit = 30]
  note t2 = query_errors_at_the_boundary
    [where s = locked_service and e = "SqliteError ''database is locked''" and t = 990
       and current_time = 1000 and tz = "\<lambda>t. 0" and time_range = "''15min''" and limit = 96]
  have r1: "get_aggregated_data ''day'' 30 locked_service = Inr []"
    using t1 h1 by blast
  have r2: "get_today_aggregated_data (\<lambda>t. 0) 1000 ''15min'' 96 locked_service = Inr []"
    using t2 h1 by blast
  have r3: "get_counts_since 1000 990 locked_service =
      (Inl (SqliteError ''database is locked''), locked_service)"
    using t1 h1 h2 by blast
  show ?thesis by (intro conjI h1 h2 r1 r2 r3)
qed

section \<open>Bucket keys and bucket counts\<close>

lemma pass_rows_granular:
  "pass_rows tz now raw =
     granularity_rows Min15 tz now raw @ granularity_rows Min30 tz now raw @
     granularity_rows Daily tz now raw @ granularity_rows Weekly tz now raw @
     granularity_rows Monthly tz now raw"
  by (simp add: pass_rows_def granularity_rows_def)

lemma granularity_rows_iff:
  "x \<in> set (granularity_rows g tz now raw) \<longleftrightarrow>
     (\<exists>e \<in> set raw. now - horizon_days g * 86400 \<le> timestamp e \<and>
        x = group_row (period_of g tz (timestamp e))
              (bucket_events g tz now raw (period_of g tz (timestamp e))))"
  by (auto simp: granularity_rows_def aggregate_select_def bucket_events_def Let_def)

lemma time_period_group_row [simp]: "time_period (group_row k grp) = k"
  by (simp add: group_row_def)

lemma granularity_rows_key:
  assumes "x \<in> set (granularity_rows g tz now raw)"
  shows "x = group_row (time_period x) (bucket_events g tz now raw (time_period x))"
    and "\<exists>t. time_period x = period_of g tz t"
  using assms unfolding granularity_rows_iff by auto

lemma keys_insert_or_replace_all:
  "time_period ` set (insert_or_replace_all G T) = time_period ` set T \<union> time_period ` set G"
proof (induction G arbitrary: T)
  case Nil
  show ?case by (simp add: insert_or_replace_all_def)
next
  case (Cons g G)
  have "time_period ` set (insert_or_replace g T) = insert (time_period g) (time_period ` set T)"
    by (auto simp: insert_or_replace_def)
  then show ?case
    unfolding insert_or_replace_all_Cons Cons.IH by auto
qed

lemma last_writer:
  assumes "r \<in> set G" and "\<forall>x \<in> set G. time_period x = time_period r \<longrightarrow> x = r"
  shows "{x \<in> set (insert_or_replace_all G T). time_period x = time_period r} = {r}"
proof -
  let ?W = "insert_or_replace_all G []"
  have split: "set (insert_or_replace_all G T) =
      {x \<in> set T. time_period x \<notin> time_period ` set G} \<union> set ?W"
    by (subst insert_or_replace_all_split) auto
  have sub: "set ?W \<subseteq> set G" by (rule insert_or_replace_all_nil_rows)
  have "time_period r \<in> time_period ` set ?W"
    using assms(1) by (simp add: keys_insert_or_replace_all)
  then obtain x where "x \<in> set ?W" and "time_period x = time_period r" by auto
  with sub assms(2) have rW: "r \<in> set ?W" by auto
  show ?thesis
  proof (intro equalityI subsetI)
    fix x assume "x \<in> {x \<in> set (insert_or_replace_all G T). time_period x = time_period r}"
    then have "x \<in> set (insert_or_replace_all G T)" and k: "time_period x = time_period r" by auto
    with split assms(1) have "x \<in> set ?W" by auto
    with sub assms(2) k show "x \<in> {r}" by auto
  next
    fix x assume "x \<in> {r}"
    with rW split show "x \<in> {x \<in> set (insert_or_replace_all G T). time_period x = time_period r}"
      by auto
  qed
qed

lemma insert_or_replace_all_append:
  "insert_or_replace_all (G1 @ G2) T = insert_or_replace_all G2 (insert_or_replace_all G1 T)"
  by (simp add: insert_or_replace_all_def)

lemma length_period_of:
  "length (period_of g tz t) =
     (case g of Min15 \<Rightarrow> 16 | Min30 \<Rightarrow> 16 | Daily \<Rightarrow> 10 | Weekly \<Rightarrow> 8 | Monthly \<Rightarrow> 7)"
  by (cases g) simp_all

lemma period_of_distinct:
  assumes "g \<noteq> g'" and "{g, g'} \<noteq> {Min15, Min30}"
  shows "period_of g tz a \<noteq> period_of g' tz b"
proof
  assume "period_of g tz a = period_of g' tz b"
  then have "length (period_of g tz a) = length (period_of g' tz b)" by simp
  with assms show False
    unfolding length_period_of by (cases g; cases g') auto
qed

lemma length_period_hour_prefix [simp]: "length (period_hour_prefix tz t) = 14"
  by (simp add: period_hour_prefix_def)

lemma min15_min30_same_key:
  assumes "period_15min tz a = period_30min tz b"
  shows "period_15min tz a = period_30min tz a"
  using assms
  by (simp add: period_15min_def period_30min_def split: if_splits)

lemma distinct_keys_insert_or_replace_all:
  assumes "distinct (map time_period T)"
  shows "distinct (map time_period (insert_or_replace_all G T))"
  using assms
proof (induction G arbitrary: T)
  case Nil
  then show ?case by (simp add: insert_or_replace_all_def)
next
  case (Cons g G)
  from Cons.prems have "distinct (map time_period (insert_or_replace g T))"
    by (auto simp: insert_or_replace_def distinct_map_filter)
  then show ?case unfolding insert_or_replace_all_Cons by (rule Cons.IH)
qed

lemma distinct_keys_aggregate_pass:
  assumes "distinct (map time_period T)"
  shows "distinct (map time_period (aggregate_pass tz now raw T))"
  unfolding aggregate_pass_alt
  using assms by (intro distinct_keys_insert_or_replace_all) (simp add: delete_where_def distinct_map_filter)

lemma written_last:
  assumes "pass_rows tz now raw = G1 @ G2" and "r \<in> set G2"
    and "\<forall>x \<in> set G2. time_period x = time_period r \<longrightarrow> x = r"
  shows "{x \<in> set (aggregate_pass tz now raw T). time_period x = time_period r} = {r}"
  unfolding aggregate_pass_alt assms(1) insert_or_replace_all_append
  using assms(2,3) by (rule last_writer)

lemma group_row_counts:
  "keyboard_count (group_row k grp) = int (length (filter (\<lambda>e. event_type e = Keyboard) grp))"
  "mouse_count (group_row k grp) = int (length (filter (\<lambda>e. event_type e = Mouse) grp))"
  by (simp_all add: group_row_def sum_indicator)

lemma bucket_row_written:
  assumes "e \<in> set raw" and "now - horizon_days g * 86400 \<le> timestamp e"
    and "g = Min15 \<longrightarrow> period_15min tz (timestamp e) \<noteq> period_30min tz (timestamp e)"
  shows "{x \<in> set (aggregate_pass tz now raw T). time_period x = period_of g tz (timestamp e)} =
           {group_row (period_of g tz (timestamp e))
              (bucket_events g tz now raw (period_of g tz (timestamp e)))}"
proof -
  define k where "k = period_of g tz (timestamp e)"
  define r where "r = group_row k (bucket_events g tz now raw k)"
  have kr: "time_period r = k" by (simp add: r_def)
  have own: "r \<in> set (granularity_rows g tz now raw)"
    unfolding granularity_rows_iff r_def k_def using assms(1,2) by blast
  have U: "\<forall>x \<in> set (granularity_rows g' tz now raw). time_period x = time_period r \<longrightarrow> x = r"
    if "g' = g \<or> g' \<noteq> g \<and> (g, g') \<noteq> (Min30, Min15)" for g'
  proof (intro ballI impI)
    fix x assume x: "x \<in> set (granularity_rows g' tz now raw)" and key: "time_period x = time_period r"
    show "x = r"
    proof (cases "g' = g")
      case True
      with granularity_rows_key(1) [OF x] key kr show ?thesis by (simp add: r_def)
    next
      case False
      from granularity_rows_key(2) [OF x] obtain t where t: "time_period x = period_of g' tz t" ..
      with key kr have eq: "period_of g tz (timestamp e) = period_of g' tz t" by (simp add: k_def)
      show ?thesis
      proof (cases "{g, g'} = {Min15, Min30}")
        case True
        with False that have "g = Min15" and "g' = Min30" by (auto simp: doubleton_eq_iff)
        with eq assms(3) min15_min30_same_key [of tz "timestamp e" t] show ?thesis by simp
      next
        case ne: False
        from False have "g \<noteq> g'" by simp
        from period_of_distinct [OF this ne, of tz "timestamp e" t] eq show ?thesis by simp
      qed
    qed
  qed
  have "{x \<in> set (aggregate_pass tz now raw T). time_period x = time_period r} = {r}"
  proof (cases g)
    case Min15
    show ?thesis
    proof (rule written_last [where ?G1.0 = "[]" and ?G2.0 = "pass_rows tz now raw"])
      show "pass_rows tz now raw = [] @ pass_rows tz now raw" by simp
      show "r \<in> set (pass_rows tz now raw)" using own Min15 by (simp add: pass_rows_granular)
      show "\<forall>x \<in> set (pass_rows tz now raw). time_period x = time_period r \<longrightarrow> x = r"
        using U [of Min15] U [of Min30] U [of Daily] U [of Weekly] U [of Monthly] Min15
        by (auto simp: pass_rows_granular)
    qed
  next
    case Min30
    let ?G2 = "granularity_rows Min30 tz now raw @ granularity_rows Daily tz now raw @
               granularity_rows Weekly tz now raw @ granularity_rows Monthly tz now raw"
    show ?thesis
    proof (rule written_last [where ?G1.0 = "granularity_rows Min15 tz now raw" and ?G2.0 = ?G2])
      show "pass_rows tz now raw = granularity_rows Min15 tz now raw @ ?G2"
        by (simp add: pass_rows_granular)
      show "r \<in> set ?G2" using own Min30 by simp
      show "\<forall>x \<in> set ?G2. time_period x = time_period r \<longrightarrow> x = r"
        using U [of Min30] U [of Daily] U [of Weekly] U [of Monthly] Min30 by auto
    qed
  next
    case Daily
    let ?G1 = "granularity_rows Min15 tz now raw @ granularity_rows Min30 tz now raw"
    let ?G2 = "granularity_rows Daily tz now raw @
               granularity_rows Weekly tz now raw @ granularity_rows Monthly tz now raw"
    show ?thesis
    proof (rule written_last [where ?G1.0 = ?G1 and ?G2.0 = ?G2])
      show "pass_rows tz now raw = ?G1 @ ?G2" by (simp add: pass_rows_granular)
      show "r \<in> set ?G2" using own Daily by simp
      show "\<forall>x \<in> set ?G2. time_period x = time_period r \<longrightarrow> x = r"
        using U [of Daily] U [of Weekly] U [of Monthly] Daily by auto
    qed
  next
    case Weekly
    let ?G1 = "granularity_rows Min15 tz now raw @ granularity_rows Min30 tz now raw @
               granularity_rows Daily tz now raw"
    let ?G2 = "granularity_rows Weekly tz now raw @ granularity_rows Monthly tz now raw"
    show ?thesis
    proof (rule written_last [where ?G1.0 = ?G1 and ?G2.0 = ?G2])
      show "pass_rows tz now raw = ?G1 @ ?G2" by (simp add: pass_rows_granular)
      show "r \<in> set ?G2" using own Weekly by simp
      show "\<forall>x \<in> set ?G2. time_period x = time_period r \<longrightarrow> x = r"
        using U [of Weekly] U [of Monthly] Weekly by auto
    qed
  next
    case Monthly
    let ?G1 = "granularity_rows Min15 tz now raw @ granularity_rows Min30 tz now raw @
               granularity_rows Daily tz now raw @ granularity_rows Weekly tz now raw"
    let ?G2 = "granularity_rows Monthly tz now raw"
    show ?thesis
    proof (rule written_last [where ?G1.0 = ?G1 and ?G2.0 = ?G2])
      show "pass_rows tz now raw = ?G1 @ ?G2" by (simp add: pass_rows_granular)
      show "r \<in> set ?G2" using own Monthly by simp
      show "\<forall>x \<in> set ?G2. time_period x = time_period r \<longrightarrow> x = r"
        using U [of Monthly] Monthly by auto
    qed
  qed
  then show ?thesis by (simp add: kr) (simp add: r_def k_def)
qed

lemma collision_keys:
  "period_15min (\<lambda>t. 0) 1704103500 = ''2024-01-01 10:00''"
  "period_30min (\<lambda>t. 0) 1704103500 = ''2024-01-01 10:00''"
  "period_day (\<lambda>t. 0) 1704103500 = ''2024-01-01''"
  "period_week (\<lambda>t. 0) 1704103500 = ''2024-W01''"
  "period_month (\<lambda>t. 0) 1704103500 = ''2024-01''"
  by code_simp+

lemma straddling_keys:
  "period_day (\<lambda>t. 0) 1701475800 = ''2023-12-02''"
  "period_week (\<lambda>t. 0) 1701475800 = ''2023-W48''"
  "period_month (\<lambda>t. 0) 1701475800 = ''2023-12''"
  "period_day (\<lambda>t. 0) 1701547200 = ''2023-12-02''"
  "period_week (\<lambda>t. 0) 1701547200 = ''2023-W48''"
  "period_month (\<lambda>t. 0) 1701547200 = ''2023-12''"
  by code_simp+

lemma collision_run:
  "aggregate_pass (\<lambda>t. 0) 1704104700 collision_events [] =
     [\<lparr>time_period = ''2024-01-01 10:15'', keyboard_count = 1, mouse_count = 0, score = 1\<rparr>,
      \<lparr>time_period = ''2024-01-01 10:00'', keyboard_count = 2, mouse_count = 0, score = 2\<rparr>,
      \<lparr>time_period = ''2024-01-01'', keyboard_count = 2, mouse_count = 0, score = 2\<rparr>,
      \<lparr>time_period = ''2024-W01'', keyboard_count = 2, mouse_count = 0, score = 2\<rparr>,
      \<lparr>time_period = ''2024-01'', keyboard_count = 2, mouse_count = 0, score = 2\<rparr>]"
  by (simp add: aggregate_pass_def aggregate_select_def group_row_def history_keys collision_keys
        collision_events_def delete_where_def insert_or_replace_all_def insert_or_replace_def
        del: like.simps)

lemma straddling_run:
  "aggregate_pass (\<lambda>t. 0) 1704104700 straddling_events [] =
     [\<lparr>time_period = ''2023-12-02'', keyboard_count = 1, mouse_count = 0, score = 1\<rparr>,
      \<lparr>time_period = ''2023-W48'', keyboard_count = 2, mouse_count = 0, score = 2\<rparr>,
      \<lparr>time_period = ''2023-12'', keyboard_count = 2, mouse_count = 0, score = 2\<rparr>]"
  by (simp add: aggregate_pass_def aggregate_select_def group_row_def straddling_keys
        straddling_events_def delete_where_def insert_or_replace_all_def insert_or_replace_def
        del: like.simps)

text \<open>
  C3, as stated, fails, in two ways. With keyboard events at 10:05 and 10:20 and a run at
  10:25, the 15-minute bucket 10:00 and the 30-minute bucket 10:00 have the same key and
  are one row; the event of 10:20 is not in the 15-minute bucket 10:00, yet the only row
  with that key counts two keyboard events. And with keyboard events at 00:10 and 20:00
  of 2023-12-02 and the same run time, both events are in the daily bucket of that date,
  but only the second is inside the 30-day horizon, and the row of that day counts one.
\<close>

theorem bucket_key_collision_counterexample:
  "period_15min (\<lambda>t. 0) 1704103500 = period_30min (\<lambda>t. 0) 1704104400 \<and>
   period_15min (\<lambda>t. 0) 1704104400 \<noteq> period_15min (\<lambda>t. 0) 1704103500 \<and>
   filter (\<lambda>x. time_period x = period_15min (\<lambda>t. 0) 1704103500)
      (aggregate_pass (\<lambda>t. 0) 1704104700 collision_events []) =
     [\<lparr>time_period = ''2024-01-01 10:00'', keyboard_count = 2, mouse_count = 0, score = 2\<rparr>] \<and>
   length (filter (\<lambda>e. period_15min (\<lambda>t. 0) (timestamp e) = period_15min (\<lambda>t. 0) 1704103500)
             collision_events) = 1 \<and>
   filter (\<lambda>x. time_period x = period_day (\<lambda>t. 0) 1701475800)
      (aggregate_pass (\<lambda>t. 0) 1704104700 straddling_events []) =
     [\<lparr>time_period = ''2023-12-02'', keyboard_count = 1, mouse_count = 0, score = 1\<rparr>] \<and>
   length (filter (\<lambda>e. period_day (\<lambda>t. 0) (timestamp e) = period_day (\<lambda>t. 0) 1701475800)
             straddling_events) = 2"
proof -
  have a: "period_15min (\<lambda>t. 0) 1704103500 = period_30min (\<lambda>t. 0) 1704104400"
    by (simp add: history_keys collision_keys)
  have b: "period_15min (\<lambda>t. 0) 1704104400 \<noteq> period_15min (\<lambda>t. 0) 1704103500"
    by (simp add: history_keys collision_keys)
  have c: "filter (\<lambda>x. time_period x = period_15min (\<lambda>t. 0) 1704103500)
      (aggregate_pass (\<lambda>t. 0) 1704104700 collision_events []) =
     [\<lparr>time_period = ''2024-01-01 10:00'', keyboard_count = 2, mouse_count = 0, score = 2\<rparr>]"
    by (simp add: collision_run collision_keys)
  have d: "length (filter (\<lambda>e. period_15min (\<lambda>t. 0) (timestamp e) = period_15min (\<lambda>t. 0) 1704103500)
             collision_events) = 1"
    by (simp add: collision_events_def history_keys collision_keys)
  have e: "filter (\<lambda>x. time_period x = period_day (\<lambda>t. 0) 1701475800)
      (aggregate_pass (\<lambda>t. 0) 1704104700 straddling_events []) =
     [\<lparr>time_period = ''2023-12-02'', keyboard_count = 1, mouse_count = 0, score = 1\<rparr>]"
    by (simp add: straddling_run straddling_keys)
  have f: "length (filter (\<lambda>e. period_day (\<lambda>t. 0) (timestamp e) = period_day (\<lambda>t. 0) 1701475800)
             straddling_events) = 2"
    by (simp add: straddling_events_def straddling_keys)
  show ?thesis by (intro conjI a b c d e f)
qed

text \<open>
  C3, amended. Take a granularity and a raw event inside that granularity's lookback
  horizon and, for the 15-minute granularity, not in a bucket whose key is also a
  30-minute key (those ending in \<^verbatim>\<open>:00\<close> and \<^verbatim>\<open>:30\<close>). After an aggregation run
  there is exactly one row with the event's period key, and its \<^verbatim>\<open>keyboard_count\<close>
  and \<^verbatim>\<open>mouse_count\<close> are the numbers of keyboard and mouse raw events inside the
  horizon that have this period key. Keys of two different granularities, other than the
  pair of the 15-minute and the 30-minute granularity, differ; a 15-minute key that is
  not the 30-minute key of its own instant is no 30-minute key at all. A table with one
  row per key has one row per key after the run.
\<close>

theorem bucket_rows_hold_horizon_counts:
  "(e \<in> set raw \<and> now - horizon_days g * 86400 \<le> timestamp e \<and>
    (g = Min15 \<longrightarrow> period_15min tz (timestamp e) \<noteq> period_30min tz (timestamp e)) \<longrightarrow>
      {x \<in> set (aggregate_pass tz now raw T). time_period x = period_of g tz (timestamp e)} =
        {group_row (period_of g tz (timestamp e))
           (bucket_events g tz now raw (period_of g tz (timestamp e)))}) \<and>
   keyboard_count (group_row k grp) = int (length (filter (\<lambda>x. event_type x = Keyboard) grp)) \<and>
   mouse_count (group_row k grp) = int (length (filter (\<lambda>x. event_type x = Mouse) grp)) \<and>
   (g1 \<noteq> g2 \<and> {g1, g2} \<noteq> {Min15, Min30} \<longrightarrow> period_of g1 tz a \<noteq> period_of g2 tz b) \<and>
   (period_15min tz a \<noteq> period_30min tz a \<longrightarrow> period_15min tz a \<noteq> period_30min tz b) \<and>
   (distinct (map time_period T) \<longrightarrow> distinct (map time_period (aggregate_pass tz now raw T)))"
proof (intro conjI impI)
  assume "e \<in> set raw \<and> now - horizon_days g * 86400 \<le> timestamp e \<and>
    (g = Min15 \<longrightarrow> period_15min tz (timestamp e) \<noteq> period_30min tz (timestamp e))"
  then show "{x \<in> set (aggregate_pass tz now raw T). time_period x = period_of g tz (timestamp e)} =
        {group_row (period_of g tz (timestamp e))
           (bucket_events g tz now raw (period_of g tz (timestamp e)))}"
    using bucket_row_written [of e raw now g tz T] by blast
next
  show "keyboard_count (group_row k grp) = int (length (filter (\<lambda>x. event_type x = Keyboard) grp))"
    by (rule group_row_counts)
  show "mouse_count (group_row k grp) = int (length (filter (\<lambda>x. event_type x = Mouse) grp))"
    by (rule group_row_counts)
next
  assume "g1 \<noteq> g2 \<and> {g1, g2} \<noteq> {Min15, Min30}"
  then show "period_of g1 tz a \<noteq> period_of g2 tz b"
    using period_of_distinct by blast
next
  assume "period_15min tz a \<noteq> period_30min tz a"
  then show "period_15min tz a \<noteq> period_30min tz b"
    using min15_min30_same_key by blast
next
  assume "distinct (map time_period T)"
  then show "distinct (map time_period (aggregate_pass tz now raw T))"
    by (rule distinct_keys_aggregate_pass)
qed

theorem bucket_rows_hold_horizon_counts_witness:
  "\<lparr>timestamp = 1704104400, event_type = Keyboard\<rparr> \<in> set collision_events \<and>
   1704104700 - horizon_days Min15 * 86400 \<le> timestamp \<lparr>timestamp = 1704104400, event_type = Keyboard\<rparr> \<and>
   period_15min (\<lambda>t. 0) 1704104400 \<noteq> period_30min (\<lambda>t. 0) 1704104400 \<and>
   {x \<in> set (aggregate_pass (\<lambda>t. 0) 1704104700 collision_events []).
      time_period x = ''2024-01-01 10:15''} =
     {\<lparr>time_period = ''2024-01-01 10:15'', keyboard_count = 1, mouse_count = 0, score = 1\<rparr>} \<and>
   1704104700 - horizon_days Min30 * 86400 \<le> timestamp \<lparr>timestamp = 1704104400, event_type = Keyboard\<rparr> \<and>
   {x \<in> set (aggregate_pass (\<lambda>t. 0) 1704104700 collision_events []).
      time_period x = ''2024-01-01 10:00''} =
     {\<lparr>time_period = ''2024-01-01 10:00'', keyboard_count = 2, mouse_count = 0, score = 2\<rparr>} \<and>
   distinct (map time_period (aggregate_pass (\<lambda>t. 0) 1704104700 collision_events []))"
proof -
  let ?e = "\<lparr>timestamp = 1704104400, event_type = Keyboard\<rparr>"
  have h1: "?e \<in> set collision_events" by (simp add: collision_events_def)
  have h2: "1704104700 - horizon_days Min15 * 86400 \<le> timestamp ?e" by simp
  have h3: "period_15min (\<lambda>t. 0) 1704104400 \<noteq> period_30min (\<lambda>t. 0) 1704104400"
    by (simp add: history_keys)
  have h4: "1704104700 - horizon_days Min30 * 86400 \<le> timestamp ?e" by simp
  have b15: "bucket_events Min15 (\<lambda>t. 0) 1704104700 collision_events ''2024-01-01 10:15'' = [?e]"
    by (simp add: bucket_events_def collision_events_def history_keys collision_keys)
  have b30: "bucket_events Min30 (\<lambda>t. 0) 1704104700 collision_events ''2024-01-01 10:00'' =
      collision_events"
    by (simp add: bucket_events_def collision_events_def history_keys collision_keys)
  note t15 = bucket_rows_hold_horizon_counts
    [where e = ?e and raw = collision_events and now = 1704104700 and g = Min15
       and tz = "\<lambda>t. 0" and T = "[]", THEN conjunct1]
  note t30 = bucket_rows_hold_horizon_counts
    [where e = ?e and raw = collision_events and now = 1704104700 and g = Min30
       and tz = "\<lambda>t. 0" and T = "[]", THEN conjunct1]
  have r15: "{x \<in> set (aggregate_pass (\<lambda>t. 0) 1704104700 collision_events []).
      time_period x = ''2024-01-01 10:15''} =
     {\<lparr>time_period = ''2024-01-01 10:15'', keyboard_count = 1, mouse_count = 0, score = 1\<rparr>}"
    using t15 h1 h2 h3 by (simp add: history_keys b15) (simp add: group_row_def)
  have r30: "{x \<in> set (aggregate_pass (\<lambda>t. 0) 1704104700 collision_events []).
      time_period x = ''2024-01-01 10:00''} =
     {\<lparr>time_period = ''2024-01-01 10:00'', keyboard_count = 2, mouse_count = 0, score = 2\<rparr>}"
    using t30 h1 h4 by (simp add: history_keys b30) (simp add: group_row_def collision_events_def)
  have d: "distinct (map time_period (aggregate_pass (\<lambda>t. 0) 1704104700 collision_events []))"
    using bucket_rows_hold_horizon_counts [where T = "[]" and tz = "\<lambda>t. 0" and now = 1704104700
      and raw = collision_events] by simp
  show ?thesis by (intro conjI h1 h2 h3 r15 h4 r30 d)
qed

end
